theory Spec2Isabelle
  imports Main "HOL-Library.Word"
begin

section \<open>JavaScript strings and the string primitives the client uses\<close>

text \<open>
  A JavaScript string is a finite sequence of 16-bit code units; \<open>length\<close>, \<open>substring\<close>,
  \<open>charAt\<close>, \<open>indexOf\<close>, \<open>split\<close> and the regular expressions of the source all count
  and compare code units. String literals of the source are written with \<open>str\<close>.
\<close>

type_synonym jsstring = "16 word list"

definition str :: "string \<Rightarrow> jsstring" where
  "str s = map of_char s"

text \<open>\<open>const BYTES_LF = '\x0A'\<close> and \<open>const BYTES_NULL = '\x00'\<close>.\<close>

abbreviation BYTES_LF :: "16 word" where
  "BYTES_LF \<equiv> 0x0A"

abbreviation BYTES_NULL :: "16 word" where
  "BYTES_NULL \<equiv> 0x00"

text \<open>
  Modelled from the spec: \<open>BYTES.LF\<close>, which \<open>toString\<close> reads and no file of the
  repository declares. The spec has the lines of a frame ``joined with a single
  line-terminator byte (value 10)'' and the body after ``a blank line (single line
  terminator)'', so \<open>BYTES.LF\<close> is that byte.
\<close>

definition BYTES_dot_LF :: "16 word" where
  "BYTES_dot_LF = 0x0A"

text \<open>
  Modelled from the spec: \<open>Byte.LF\<close>, which \<open>unmarshall\<close> and the \<open>onmessage\<close> handler
  read and no file of the repository declares. The spec has the last piece of a buffer
  compared with ``exactly a single line-terminator byte (a bare heartbeat with no frame
  content)'', and the bare heartbeat is ``a single line-terminator byte (0x0A)'', so
  \<open>Byte.LF\<close> is that byte.
\<close>

definition Byte_dot_LF :: "16 word" where
  "Byte_dot_LF = 0x0A"

text \<open>
  The class \<open>\s\<close> of a JavaScript regular expression, which is also the white space that
  \<open>parseInt\<close> skips: the WhiteSpace and LineTerminator code points.
\<close>

definition is_space :: "16 word \<Rightarrow> bool" where
  "is_space c =
     (c \<in> set [0x09, 0x0A, 0x0B, 0x0C, 0x0D, 0x20, 0xA0, 0x1680, 0x2028, 0x2029,
                0x202F, 0x205F, 0x3000, 0xFEFF]
      \<or> (0x2000 \<le> c \<and> c \<le> 0x200A))"

text \<open>\<open>const trim = (str) => str.replace(/^\s+|\s+$/g,'')\<close>: the leading run and the
  trailing run of white space are removed.\<close>

definition trim :: "jsstring \<Rightarrow> jsstring" where
  "trim s = rev (dropWhile is_space (rev (dropWhile is_space s)))"

text \<open>
  \<open>find_sub pat s\<close> is the offset of the first occurrence of \<open>pat\<close> in \<open>s\<close>.
  \<open>s.indexOf(pat)\<close>, and \<open>s.search(re)\<close> for a regular expression \<open>re\<close> that is a literal
  string, return that offset, or \<open>-1\<close> when there is none.
\<close>

fun find_sub :: "jsstring \<Rightarrow> jsstring \<Rightarrow> nat option" where
  "find_sub pat [] = (if pat = [] then Some 0 else None)"
| "find_sub pat (x # xs) =
     (if take (length pat) (x # xs) = pat then Some 0
      else map_option Suc (find_sub pat xs))"

definition js_indexOf :: "jsstring \<Rightarrow> jsstring \<Rightarrow> int" where
  "js_indexOf s pat = (case find_sub pat s of None \<Rightarrow> - 1 | Some i \<Rightarrow> int i)"

text \<open>
  \<open>s.substring(a, b)\<close>: both arguments are clamped to \<open>[0, s.length]\<close> and swapped when
  the first is the greater; \<open>s.substring(a)\<close> runs to the end of the string. A \<open>NaN\<close>
  argument counts as 0 (see \<open>unmarshallSingle\<close>, the only place where one can arise).
\<close>

definition js_substring :: "jsstring \<Rightarrow> int \<Rightarrow> int \<Rightarrow> jsstring" where
  "js_substring s a b =
     (let n = int (length s);
          a' = min (max a 0) n;
          b' = min (max b 0) n;
          lo = min a' b';
          hi = max a' b'
      in take (nat hi - nat lo) (drop (nat lo) s))"

definition js_substring_from :: "jsstring \<Rightarrow> int \<Rightarrow> jsstring" where
  "js_substring_from s a = js_substring s a (int (length s))"

text \<open>\<open>s.split(sep)\<close> for a separator of one code unit. The array it returns is never
  empty (\<open>''.split(sep)\<close> is \<open>['']\<close>); \<open>cons_first\<close> puts a code unit in front of the
  first piece.\<close>

fun cons_first :: "16 word \<Rightarrow> jsstring list \<Rightarrow> jsstring list" where
  "cons_first x [] = [[x]]"
| "cons_first x (p # ps) = (x # p) # ps"

fun js_split :: "16 word \<Rightarrow> jsstring \<Rightarrow> jsstring list" where
  "js_split sep [] = [[]]"
| "js_split sep (x # xs) =
     (if x = sep then [] # js_split sep xs else cons_first x (js_split sep xs))"

text \<open>\<open>lines.join(sep)\<close>.\<close>

fun js_join :: "16 word \<Rightarrow> jsstring list \<Rightarrow> jsstring" where
  "js_join sep [] = []"
| "js_join sep [l] = l"
| "js_join sep (l # m # ls) = l @ sep # js_join sep (m # ls)"

text \<open>
  \<open>parseInt(s, 10)\<close>: leading white space is skipped, one sign is read, then the longest
  run of decimal digits; \<open>None\<close> stands for \<open>NaN\<close> (no digit). The value is kept as an
  unbounded integer: the client only ever adds it to an index and clamps the sum to the
  length of a string, where the rounding of a double beyond \<open>2^53\<close> changes nothing.
\<close>

definition is_digit :: "16 word \<Rightarrow> bool" where
  "is_digit c = (0x30 \<le> c \<and> c \<le> 0x39)"

definition digits_val :: "jsstring \<Rightarrow> nat" where
  "digits_val ds = foldl (\<lambda>a c. 10 * a + (unat c - 48)) 0 ds"

definition parseInt10 :: "jsstring \<Rightarrow> int option" where
  "parseInt10 s =
     (let t = dropWhile is_space s;
          sg = (case t of c # r \<Rightarrow> if c = 0x2D then - 1 else 1 | [] \<Rightarrow> (1::int));
          u = (case t of c # r \<Rightarrow> if c = 0x2D \<or> c = 0x2B then r else t | [] \<Rightarrow> []);
          ds = takeWhile is_digit u
      in if ds = [] then None else Some (sg * int (digits_val ds)))"

text \<open>The decimal string of a natural number, as string concatenation and template
  literals produce it for the integers of this program (byte counts and the id counter).\<close>

fun dec :: "nat \<Rightarrow> jsstring" where
  "dec n = (if n < 10 then [of_nat (48 + n)] else dec (n div 10) @ [of_nat (48 + n mod 10)])"

declare dec.simps [simp del]

subsection \<open>\<open>encodeURI\<close> and the counting regular expression\<close>

datatype js_error = URIError | TypeError | ReferenceError

text \<open>The code units \<open>encodeURI\<close> leaves alone: letters, digits,
  \<open>- _ . ! ~ * ' ( )\<close>, the reserved \<open>; / ? : @ & = + $ ,\<close> and \<open>#\<close>.\<close>

definition uri_unescaped :: "16 word \<Rightarrow> bool" where
  "uri_unescaped c =
     ((0x41 \<le> c \<and> c \<le> 0x5A) \<or> (0x61 \<le> c \<and> c \<le> 0x7A) \<or> (0x30 \<le> c \<and> c \<le> 0x39)
      \<or> c \<in> set [0x2D, 0x5F, 0x2E, 0x21, 0x7E, 0x2A, 0x27, 0x28, 0x29,
                   0x3B, 0x2F, 0x3F, 0x3A, 0x40, 0x26, 0x3D, 0x2B, 0x24, 0x2C, 0x23])"

text \<open>The UTF-8 octets of a code point.\<close>

definition utf8_octets :: "nat \<Rightarrow> nat list" where
  "utf8_octets v =
     (if v < 0x80 then [v]
      else if v < 0x800 then [0xC0 + v div 64, 0x80 + v mod 64]
      else if v < 0x10000 then [0xE0 + v div 4096, 0x80 + (v div 64) mod 64, 0x80 + v mod 64]
      else [0xF0 + v div 262144, 0x80 + (v div 4096) mod 64, 0x80 + (v div 64) mod 64,
            0x80 + v mod 64])"

definition hex_digit :: "nat \<Rightarrow> 16 word" where
  "hex_digit d = (if d < 10 then of_nat (48 + d) else of_nat (55 + d))"

definition percent_octet :: "nat \<Rightarrow> jsstring" where
  "percent_octet b = [0x25, hex_digit (b div 16), hex_digit (b mod 16)]"

definition percent_encode :: "nat \<Rightarrow> jsstring" where
  "percent_encode v = concat (map percent_octet (utf8_octets v))"

text \<open>
  \<open>encodeURI(s)\<close>, the Encode operation of ECMAScript: a code unit of the unescaped set is
  copied; any other is decoded as UTF-16 (a lead surrogate takes the next unit with it) and
  written as the percent escapes of its UTF-8 octets. A trail surrogate with no lead, or a
  lead surrogate with no trail, throws \<open>URIError\<close>.
\<close>

fun encodeURI :: "jsstring \<Rightarrow> js_error + jsstring" where
  "encodeURI [] = Inr []"
| "encodeURI [c] =
     (if uri_unescaped c then Inr [c]
      else if 0xD800 \<le> c \<and> c \<le> 0xDFFF then Inl URIError
      else Inr (percent_encode (unat c)))"
| "encodeURI (c # d # ds) =
     (if uri_unescaped c then map_sum id ((#) c) (encodeURI (d # ds))
      else if 0xDC00 \<le> c \<and> c \<le> 0xDFFF then Inl URIError
      else if c < 0xD800 \<or> 0xDFFF < c
        then map_sum id ((@) (percent_encode (unat c))) (encodeURI (d # ds))
      else if 0xDC00 \<le> d \<and> d \<le> 0xDFFF
        then map_sum id
               ((@) (percent_encode ((unat c - 0xD800) * 0x400 + (unat d - 0xDC00) + 0x10000)))
               (encodeURI ds)
      else Inl URIError)"

text \<open>The line terminators, which \<open>.\<close> does not match.\<close>

definition is_line_terminator :: "16 word \<Rightarrow> bool" where
  "is_line_terminator c = (c \<in> set [0x0A, 0x0D, 0x2028, 0x2029])"

text \<open>
  The number of matches of \<open>/%..|./g\<close> in a string, scanning from the left: at a \<open>%\<close>
  followed by two code units that \<open>.\<close> matches the first alternative takes all three;
  otherwise the second alternative takes one code unit, unless it is a line terminator,
  which no alternative matches and the scan steps over.
\<close>

fun match_count :: "jsstring \<Rightarrow> nat" where
  "match_count [] = 0"
| "match_count [c] = (if is_line_terminator c then 0 else 1)"
| "match_count [c, a] =
     (if is_line_terminator c then match_count [a] else Suc (match_count [a]))"
| "match_count (c # a # b # r) =
     (if c = 0x25 \<and> \<not> is_line_terminator a \<and> \<not> is_line_terminator b
        then Suc (match_count r)
      else if is_line_terminator c then match_count (a # b # r)
      else Suc (match_count (a # b # r)))"

section \<open>JavaScript objects used as dictionaries\<close>

text \<open>
  A header value is a string, or the boolean of the suppression sentinel
  \<open>'content-length': false\<close>. An object is the list of its own properties in the order of
  their creation, each key once (\<open>wf_obj\<close>). Assignment to an existing key keeps its place;
  \<open>delete\<close> removes the property. \<open>obj_get\<close>, \<open>obj_set\<close> and \<open>obj_delete\<close> act on own
  properties; where the source reads or writes a name that the object inherits from
  \<open>Object.prototype\<close>, the model says so at that place (\<open>assign_header\<close> for the headers
  of a parsed frame, \<open>table_get\<close> and \<open>table_set\<close> for the table of subscriptions).
\<close>

datatype jsval = Str jsstring | Bool bool

type_synonym jsobject = "(jsstring \<times> jsval) list"

definition wf_obj :: "jsobject \<Rightarrow> bool" where
  "wf_obj obj = distinct (map fst obj)"

definition obj_get :: "jsobject \<Rightarrow> jsstring \<Rightarrow> jsval option" where
  "obj_get obj k = map_of obj k"

fun obj_set :: "jsobject \<Rightarrow> jsstring \<Rightarrow> jsval \<Rightarrow> jsobject" where
  "obj_set [] k v = [(k, v)]"
| "obj_set ((k', v') # obj) k v =
     (if k' = k then (k, v) # obj else (k', v') # obj_set obj k v)"

definition obj_delete :: "jsobject \<Rightarrow> jsstring \<Rightarrow> jsobject" where
  "obj_delete obj k = filter (\<lambda>kv. fst kv \<noteq> k) obj"

text \<open>
  \<open>Object.keys(obj)\<close>: the keys that are array indices (the canonical decimal string of an
  integer below \<open>2^32 - 1\<close>) come first, in ascending numeric order, then every other key in
  the order of creation.
\<close>

definition array_index :: "jsstring \<Rightarrow> bool" where
  "array_index k =
     (k \<noteq> [] \<and> list_all is_digit k \<and> (k = [0x30] \<or> hd k \<noteq> 0x30)
      \<and> digits_val k < 2 ^ 32 - 1)"

definition object_keys :: "jsobject \<Rightarrow> jsstring list" where
  "object_keys obj =
     sort_key digits_val (filter array_index (map fst obj))
     @ filter (\<lambda>k. \<not> array_index k) (map fst obj)"

text \<open>String conversion and truthiness of a header value.\<close>

fun to_str :: "jsval \<Rightarrow> jsstring" where
  "to_str (Str s) = s"
| "to_str (Bool True) = str ''true''"
| "to_str (Bool False) = str ''false''"

fun truthy :: "jsval \<Rightarrow> bool" where
  "truthy (Str s) = (s \<noteq> [])"
| "truthy (Bool b) = b"

section \<open>The Frame class\<close>

record frame =
  command :: jsstring
  headers :: jsobject
  body :: jsstring

abbreviation content_length :: jsstring where
  "content_length \<equiv> str ''content-length''"

text \<open>
  \<open>Frame.sizeOfUTF8(s)\<close>: \<open>encodeURI(s).match(/%..|./g).length\<close>, 0 for the empty string.
  \<open>match\<close> returns \<open>null\<close> when nothing matches, and \<open>null.length\<close> throws \<open>TypeError\<close>.
\<close>

definition sizeOfUTF8 :: "jsstring \<Rightarrow> js_error + nat" where
  "sizeOfUTF8 s =
     (if s = [] then Inr 0
      else case encodeURI s of
             Inl e \<Rightarrow> Inl e
           | Inr t \<Rightarrow> if match_count t = 0 then Inl TypeError else Inr (match_count t))"

text \<open>
  \<open>toString()\<close>. The method deletes the sentinel from \<open>this.headers\<close>, an object it shares
  with its caller, so the model returns the frame as the call leaves it together with the
  result. \<open>toString_lines\<close> is the array \<open>lines\<close> just before the \<open>join\<close>. A key of
  \<open>Object.keys\<close> always has a value; \<open>undefined\<close> is what the template literal would print
  for one that had none.
\<close>

definition header_line :: "jsobject \<Rightarrow> jsstring \<Rightarrow> jsstring" where
  "header_line hs name =
     name @ [0x3A] @ (case obj_get hs name of Some value \<Rightarrow> to_str value
                                              | None \<Rightarrow> str ''undefined'')"

definition toString_lines :: "frame \<Rightarrow> (js_error + jsstring list) \<times> frame" where
  "toString_lines f =
     (let skipContentLength = (obj_get (headers f) content_length = Some (Bool False));
          hs = (if skipContentLength then obj_delete (headers f) content_length
                else headers f);
          f' = f\<lparr>headers := hs\<rparr>;
          lines = [command f] @ map (header_line hs) (object_keys hs)
      in if body f \<noteq> [] \<and> \<not> skipContentLength
         then (case sizeOfUTF8 (body f) of
                 Inl e \<Rightarrow> (Inl e, f')
               | Inr n \<Rightarrow>
                   (Inr (lines @ [content_length @ [0x3A] @ dec n]
                               @ [BYTES_dot_LF # body f]), f'))
         else (Inr (lines @ [BYTES_dot_LF # body f]), f'))"

definition toString :: "frame \<Rightarrow> (js_error + jsstring) \<times> frame" where
  "toString f =
     (case toString_lines f of
        (Inl e, f') \<Rightarrow> (Inl e, f')
      | (Inr lines, f') \<Rightarrow> (Inr (js_join BYTES_dot_LF lines), f'))"

text \<open>\<open>Frame.marshall(command, headers, body)\<close>.\<close>

definition marshall :: "jsstring \<Rightarrow> jsobject \<Rightarrow> jsstring \<Rightarrow> js_error + jsstring" where
  "marshall cmd hs b =
     (case fst (toString \<lparr>command = cmd, headers = hs, body = b\<rparr>) of
        Inl e \<Rightarrow> Inl e
      | Inr s \<Rightarrow> Inr (s @ [BYTES_NULL]))"

text \<open>
  \<open>Frame.unmarshallSingle(data)\<close>. \<open>header_entry\<close> is one turn of the header loop: the
  name and the value that the line assigns. \<open>shift()\<close> takes the first element of
  \<open>headerLines\<close>, which \<open>split\<close> never returns empty. The body loop of the \<open>else\<close> branch
  copies code units from \<open>bodyIndex\<close> up to the first NULL or the end of \<open>data\<close>.

  \<open>assign_header\<close> is the assignment \<open>headers[name] = value\<close> on the literal \<open>{}\<close>. It
  creates or overwrites an own property, except for the name \<open>__proto__\<close>: that name is
  an accessor which the object inherits from \<open>Object.prototype\<close>, its setter ignores a
  value that is not an object, and the value here is a string, so the assignment binds
  nothing.
\<close>

definition header_entry :: "jsstring \<Rightarrow> jsstring \<times> jsstring" where
  "header_entry line =
     (let idx = js_indexOf line [0x3A]
      in (trim (js_substring line 0 idx), trim (js_substring_from line (idx + 1))))"

definition assign_header :: "jsobject \<Rightarrow> jsstring \<Rightarrow> jsstring \<Rightarrow> jsobject" where
  "assign_header hs name value =
     (if name = str ''__proto__'' then hs else obj_set hs name (Str value))"

definition parse_headers :: "jsstring list \<Rightarrow> jsobject" where
  "parse_headers headerLines =
     foldl (\<lambda>hs line. assign_header hs (fst (header_entry line)) (snd (header_entry line)))
           [] (rev headerLines)"

definition unmarshallSingle :: "jsstring \<Rightarrow> frame" where
  "unmarshallSingle data =
     (let divider = js_indexOf data [BYTES_LF, BYTES_LF];
          headerLines = js_split BYTES_LF (js_substring data 0 divider);
          cmd = hd headerLines;
          hs = parse_headers (tl headerLines);
          bodyIndex = divider + 2;
          b = (case obj_get hs content_length of
                 Some v \<Rightarrow>
                   if truthy v
                   then (case parseInt10 (to_str v) of
                           Some len \<Rightarrow> js_substring data bodyIndex (bodyIndex + len)
                         | None \<Rightarrow> js_substring data bodyIndex 0)
                   else takeWhile (\<lambda>chr. chr \<noteq> BYTES_NULL) (drop (nat bodyIndex) data)
               | None \<Rightarrow> takeWhile (\<lambda>chr. chr \<noteq> BYTES_NULL) (drop (nat bodyIndex) data))
      in \<lparr>command = cmd, headers = hs, body = b\<rparr>)"

text \<open>
  \<open>datas.split(/\x00\n*/)\<close>: the string is cut at every NULL, and the line feeds that
  follow the NULL go with the cut.
\<close>

function split_frames :: "jsstring \<Rightarrow> jsstring list" where
  "split_frames [] = [[]]"
| "split_frames (x # xs) =
     (if x = BYTES_NULL then [] # split_frames (dropWhile (\<lambda>c. c = BYTES_LF) xs)
      else cons_first x (split_frames xs))"
  by pat_completeness auto
termination
  by (relation "measure length") (auto simp: le_imp_less_Suc length_dropWhile_le)

text \<open>\<open>s.search(/\x00\n*$/)\<close>: the offset of the first NULL that only line feeds follow.\<close>

fun search_null_end :: "jsstring \<Rightarrow> nat option" where
  "search_null_end [] = None"
| "search_null_end (x # xs) =
     (if x = BYTES_NULL \<and> list_all (\<lambda>c. c = BYTES_LF) xs then Some 0
      else map_option Suc (search_null_end xs))"

record unmarshalled =
  frames :: "frame list"
  partial :: jsstring

text \<open>
  \<open>Frame.unmarshall(datas)\<close>. The source calls \<open>unmarshallSingle(f)\<close> without the class
  name, in the callback of \<open>map\<close> and in the \<open>push\<close>. A static method is a property of the
  class and not a binding in scope, and nothing else declares the name, so the call throws
  \<open>ReferenceError\<close> whenever it is reached: \<open>bare_unmarshallSingle\<close>. \<open>map\<close> calls its
  callback on each element in turn (\<open>map_throwing\<close>), so it returns only for an empty
  array.
\<close>

definition bare_unmarshallSingle :: "jsstring \<Rightarrow> js_error + frame" where
  "bare_unmarshallSingle f = Inl ReferenceError"

fun map_throwing :: "('a \<Rightarrow> js_error + 'b) \<Rightarrow> 'a list \<Rightarrow> js_error + 'b list" where
  "map_throwing g [] = Inr []"
| "map_throwing g (x # xs) =
     (case g x of
        Inl e \<Rightarrow> Inl e
      | Inr y \<Rightarrow> (case map_throwing g xs of Inl e \<Rightarrow> Inl e | Inr ys \<Rightarrow> Inr (y # ys)))"

definition unmarshall :: "jsstring \<Rightarrow> js_error + unmarshalled" where
  "unmarshall datas =
     (let pieces = split_frames datas;
          firstFrames = butlast pieces;
          lastFrame = last pieces
      in case map_throwing bare_unmarshallSingle firstFrames of
           Inl e \<Rightarrow> Inl e
         | Inr fs \<Rightarrow>
             (let r = \<lparr>frames = fs, partial = []\<rparr>
              in if lastFrame = [Byte_dot_LF] \<or> search_null_end lastFrame \<noteq> None
                 then (case bare_unmarshallSingle lastFrame of
                         Inl e \<Rightarrow> Inl e
                       | Inr fr \<Rightarrow> Inr (r\<lparr>frames := frames r @ [fr]\<rparr>))
                 else Inr (r\<lparr>partial := lastFrame\<rparr>)))"

section \<open>The Client class\<close>

text \<open>
  The state of a client and of the collaborators it drives. A callback is a value of the
  type \<open>'cb\<close>, a function of the application. The transport is the list \<open>ws_sent\<close> of the
  payloads given to \<open>ws.send\<close>, oldest first. A debug message is recorded by its kind and
  arguments, not by its text; where the text is a template literal over a frame, which
  calls \<open>toString\<close> on the frame and can throw, the call is in the model (\<open>dispatch\<close>).
  \<open>connectCallback\<close> and \<open>errorCallback\<close> are the
  variables of \<open>connect\<close> that the \<open>onmessage\<close> handler closes over. \<open>serverActivity\<close>, a
  wall-clock reading, is left out.

  The table \<open>this.subscriptions\<close> is a literal \<open>{}\<close>: \<open>subscriptions\<close> holds its own
  properties and \<open>subscriptions_proto\<close> its prototype, \<open>None\<close> for \<open>Object.prototype\<close>, which
  the constructor gives it, and \<open>Some f\<close> once an assignment to the name \<open>__proto__\<close> has
  put the function \<open>f\<close> in its place.

  What is called as a handler is a callback or, read through the table, a built-in method
  that the table inherits: \<open>Inherited k\<close> is the method \<open>k\<close> of \<open>Object.prototype\<close>,
  \<open>Function_method k\<close> the method \<open>k\<close> of \<open>Function.prototype\<close>. A call that returns is
  recorded in \<open>calls\<close> with its frame. A callback is a function of the application and is
  taken to return.
\<close>

datatype debug_msg =
    Dbg_transmit jsstring
  | Dbg_remaining nat
  | Dbg_pong
  | Dbg_received jsstring
  | Dbg_connected "jsval option"
  | Dbg_unhandled_message frame
  | Dbg_unhandled_frame frame

text \<open>The handle of a timer. No call of \<open>setInterval\<close> is ever reached (see
  \<open>setupHeartbeat\<close>), so \<open>pinger\<close> and \<open>ponger\<close> never hold one.\<close>

datatype timer = Timer_handle nat

datatype 'cb handler = Callback 'cb | Inherited jsstring | Function_method jsstring

record 'cb client =
  counter :: nat
  connected :: bool
  heartbeat_outgoing :: nat
  heartbeat_incoming :: nat
  maxWebSocketFrameSize :: nat
  subscriptions :: "jsstring \<rightharpoonup> 'cb"
  subscriptions_proto :: "'cb option"
  partialData :: jsstring
  onreceive :: "'cb option"
  onreceipt :: "'cb option"
  connectCallback :: "'cb option"
  errorCallback :: "'cb option"
  pinger :: "timer option"
  ponger :: "timer option"
  ws_sent :: "jsstring list"
  debug_log :: "debug_msg list"
  calls :: "('cb handler \<times> frame) list"

text \<open>The state that the constructor leaves: no callback, no timer, nothing sent.\<close>

definition new_client :: "'cb client" where
  "new_client =
     \<lparr>counter = 0, connected = False, heartbeat_outgoing = 10000,
      heartbeat_incoming = 10000, maxWebSocketFrameSize = 16 * 1024,
      subscriptions = Map.empty, subscriptions_proto = None, partialData = [],
      onreceive = None, onreceipt = None,
      connectCallback = None, errorCallback = None, pinger = None, ponger = None,
      ws_sent = [], debug_log = [], calls = []\<rparr>"

definition debug :: "debug_msg \<Rightarrow> 'cb client \<Rightarrow> 'cb client" where
  "debug m s = s\<lparr>debug_log := debug_log s @ [m]\<rparr>"


definition call :: "'cb handler \<Rightarrow> frame \<Rightarrow> 'cb client \<Rightarrow> 'cb client" where
  "call h fr s = s\<lparr>calls := calls s @ [(h, fr)]\<rparr>"



subsection \<open>The table of subscriptions\<close>

text \<open>
  What reading a property yields, as far as the \<open>MESSAGE\<close> case tells values apart: a
  falsy value (\<open>undefined\<close> for a name that is not there), a function, another truthy
  value, which cannot be called, or no value because the read throws (the property is an
  accessor whose getter throws).
\<close>

datatype 'cb found = Found_falsy | Found_function "'cb handler" | Found_object | Found_throws

text \<open>
  The properties of \<open>Object.prototype\<close> that are methods. Its one other property is the
  accessor \<open>__proto__\<close>, whose getter returns the prototype of the object it is read on
  and whose setter, given an object, makes that object the prototype.
\<close>

definition object_prototype_methods :: "jsstring list" where
  "object_prototype_methods =
     [str ''constructor'', str ''hasOwnProperty'', str ''isPrototypeOf'',
      str ''propertyIsEnumerable'', str ''toLocaleString'', str ''toString'',
      str ''valueOf'', str ''__defineGetter__'', str ''__defineSetter__'',
      str ''__lookupGetter__'', str ''__lookupSetter__'']"

text \<open>
  A callback is a function object of the application: which properties it holds, by
  itself and through its own prototype chain, is the application's, and a parameter of the
  model. \<open>fn_get f k\<close> is what reading the name \<open>k\<close> on an object whose prototype is \<open>f\<close>
  yields when the object has no own property \<open>k\<close>; \<open>fn_assign_throws f k\<close> tells whether
  an assignment to the name \<open>k\<close> on such an object throws (the chain of \<open>f\<close> holds \<open>k\<close>
  read-only, as a function holds \<open>name\<close> and \<open>length\<close>), which in the strict code of a
  class is a \<open>TypeError\<close>. Both are for names other than \<open>__proto__\<close>, which a function
  inherits from \<open>Object.prototype\<close> as every object does.
\<close>

record 'cb function_objects =
  fn_get :: "'cb \<Rightarrow> jsstring \<Rightarrow> 'cb found"
  fn_assign_throws :: "'cb \<Rightarrow> jsstring \<Rightarrow> bool"

text \<open>
  \<open>this.subscriptions[k]\<close>: the own property if there is one, else what the prototype
  gives. \<open>Object.prototype\<close> gives its methods, and itself, an object that is no function,
  for the name \<open>__proto__\<close>. A function \<open>f\<close> in its place gives \<open>f\<close> for \<open>__proto__\<close> and
  what \<open>fn_get\<close> says for any other name.
\<close>

definition table_get :: "'cb function_objects \<Rightarrow> 'cb client \<Rightarrow> jsstring \<Rightarrow> 'cb found" where
  "table_get fo s k =
     (case subscriptions s k of
        Some cb \<Rightarrow> Found_function (Callback cb)
      | None \<Rightarrow>
          (case subscriptions_proto s of
             None \<Rightarrow>
               if k = str ''__proto__'' then Found_object
               else if k \<in> set object_prototype_methods then Found_function (Inherited k)
               else Found_falsy
           | Some f \<Rightarrow>
               if k = str ''__proto__'' then Found_function (Callback f) else fn_get fo f k))"




subsection \<open>Heartbeat and dispatch\<close>

text \<open>
  \<open>Stomp.VERSIONS.V1_1\<close> and \<open>Stomp.VERSIONS.V1_2\<close> are declared in no file of the
  repository; the two strings are parameters.
\<close>

record versions =
  V1_1 :: jsstring
  V1_2 :: jsstring

text \<open>
  \<open>_setupHeartbeat(headers)\<close>. The first statement returns unless the \<open>version\<close> header
  differs from neither version string. Past it, \<open>headers['heart-beat'].split(',')\<close> throws
  \<open>TypeError\<close> when the header is missing or no string; otherwise the numbers are assigned
  to \<open>serverOutgoing\<close> and \<open>serverIncoming\<close>, names that nothing declares, and in the strict
  code of a class body that assignment throws \<open>ReferenceError\<close>. The statements that
  start the timers are not reached.
\<close>

definition setupHeartbeat :: "versions \<Rightarrow> jsobject \<Rightarrow> 'cb client \<Rightarrow> js_error + 'cb client" where
  "setupHeartbeat vs hs s =
     (if obj_get hs (str ''version'') \<noteq> Some (Str (V1_1 vs))
         \<or> obj_get hs (str ''version'') \<noteq> Some (Str (V1_2 vs))
      then Inr s
      else case obj_get hs (str ''heart-beat'') of
             None \<Rightarrow> Inl TypeError
           | Some (Bool b) \<Rightarrow> Inl TypeError
           | Some (Str hb) \<Rightarrow> Inl ReferenceError)"

text \<open>
  The \<open>switch\<close> of the \<open>onmessage\<close> handler on one frame. In the \<open>MESSAGE\<close> case
  \<open>frame.headers.subscription\<close> is used as a property key, so a frame without that header
  looks up the key \<open>undefined\<close>. What the table yields is taken if it is truthy, else
  \<open>this.onreceive\<close>; calling a truthy value that is no function throws \<open>TypeError\<close>, and
  a getter that throws is taken to throw \<open>TypeError\<close>, as those of \<open>Function.prototype\<close>
  do. The \<open>ack\<close> and \<open>nack\<close> that the handler attaches to the frame are determined by its
  \<open>message-id\<close> and \<open>subscription\<close> headers and are not recorded apart. With no handler
  the frame is logged: the template literal of the message calls \<open>toString\<close> on the
  frame before \<open>debug\<close> is called, and what \<open>toString\<close> throws leaves the handler
  (\<open>log_frame\<close>); the same holds for a frame of an unknown command.

  The handler is called as \<open>onreceive(frame)\<close>, with \<open>this\<close> undefined. \<open>call_throws\<close> is
  what a built-in method throws when called so, \<open>None\<close> when it returns. Of the methods of
  \<open>Object.prototype\<close>, \<open>toString\<close> returns a string for an undefined \<open>this\<close> and
  \<open>constructor\<close>, the function \<open>Object\<close>, returns its argument; \<open>hasOwnProperty\<close> and
  \<open>propertyIsEnumerable\<close> first turn their argument into a property key, which calls
  \<open>toString\<close> on the frame, and then, as all the others do at once, fail to make an
  object of \<open>this\<close>. The methods of \<open>Function.prototype\<close> need a function as \<open>this\<close>.
\<close>

fun call_throws :: "'cb handler \<Rightarrow> frame \<Rightarrow> js_error option" where
  "call_throws (Callback cb) fr = None"
| "call_throws (Inherited k) fr =
     (if k = str ''toString'' \<or> k = str ''constructor'' then None
      else if k = str ''hasOwnProperty'' \<or> k = str ''propertyIsEnumerable''
        then (case fst (toString fr) of Inl e \<Rightarrow> Some e | Inr text \<Rightarrow> Some TypeError)
      else Some TypeError)"
| "call_throws (Function_method k) fr = Some TypeError"

definition log_frame ::
  "(frame \<Rightarrow> debug_msg) \<Rightarrow> frame \<Rightarrow> 'cb client \<Rightarrow> js_error + 'cb client" where
  "log_frame kind fr s =
     (case fst (toString fr) of
        Inl e \<Rightarrow> Inl e
      | Inr text \<Rightarrow> Inr (debug (kind fr) s))"

definition dispatch_message ::
  "'cb function_objects \<Rightarrow> frame \<Rightarrow> 'cb client \<Rightarrow> js_error + 'cb client" where
  "dispatch_message fo fr s =
     (let subscription = (case obj_get (headers fr) (str ''subscription'') of
                            Some v \<Rightarrow> to_str v
                          | None \<Rightarrow> str ''undefined'')
      in case table_get fo s subscription of
           Found_function h \<Rightarrow>
             (case call_throws h fr of
                Some e \<Rightarrow> Inl e
              | None \<Rightarrow> Inr (call h fr s))
         | Found_object \<Rightarrow> Inl TypeError
         | Found_throws \<Rightarrow> Inl TypeError
         | Found_falsy \<Rightarrow>
             (case onreceive s of
                Some cb \<Rightarrow> Inr (call (Callback cb) fr s)
              | None \<Rightarrow> log_frame Dbg_unhandled_message fr s))"

definition dispatch ::
  "versions \<Rightarrow> 'cb function_objects \<Rightarrow> frame \<Rightarrow> 'cb client \<Rightarrow> js_error + 'cb client" where
  "dispatch vs fo fr s =
     (if command fr = str ''CONNECTED''
      then (case setupHeartbeat vs (headers fr)
                   ((debug (Dbg_connected (obj_get (headers fr) (str ''server''))) s)
                      \<lparr>connected := True\<rparr>) of
              Inl e \<Rightarrow> Inl e
            | Inr s' \<Rightarrow>
                Inr (case connectCallback s' of
                       Some cb \<Rightarrow> call (Callback cb) fr s'
                     | None \<Rightarrow> s'))
      else if command fr = str ''MESSAGE'' then dispatch_message fo fr s
      else if command fr = str ''RECEIPT''
        then Inr (case onreceipt s of Some cb \<Rightarrow> call (Callback cb) fr s | None \<Rightarrow> s)
      else if command fr = str ''ERROR''
        then Inr (case errorCallback s of Some cb \<Rightarrow> call (Callback cb) fr s | None \<Rightarrow> s)
      else log_frame Dbg_unhandled_frame fr s)"

fun dispatch_all ::
  "versions \<Rightarrow> 'cb function_objects \<Rightarrow> frame list \<Rightarrow> 'cb client \<Rightarrow> js_error + 'cb client"
  where
  "dispatch_all vs fo [] s = Inr s"
| "dispatch_all vs fo (fr # frs) s =
     (case dispatch vs fo fr s of Inl e \<Rightarrow> Inl e | Inr s' \<Rightarrow> dispatch_all vs fo frs s')"

text \<open>The \<open>onmessage\<close> handler on the text of one transport message (of a binary
  message the handler first makes the string of its bytes).\<close>

definition onmessage ::
  "versions \<Rightarrow> 'cb function_objects \<Rightarrow> jsstring \<Rightarrow> 'cb client \<Rightarrow> js_error + 'cb client" where
  "onmessage vs fo data s =
     (if data = [Byte_dot_LF] then Inr (debug Dbg_pong s)
      else case unmarshall (partialData s @ data) of
             Inl e \<Rightarrow> Inl e
           | Inr unmarshalledData \<Rightarrow>
               dispatch_all vs fo (frames unmarshalledData)
                 ((debug (Dbg_received data) s)\<lparr>partialData := partial unmarshalledData\<rparr>))"

section \<open>Notions of the specification\<close>

text \<open>
  The encoded byte count of a string, as the specification speaks of it: every character
  counts by the length of its UTF-8 encoding, a surrogate pair being one character of four
  bytes. \<open>utf16_wf\<close> holds of the strings that have an encoding at all, those in which
  every surrogate is paired.
\<close>

definition is_lead :: "16 word \<Rightarrow> bool" where
  "is_lead c = (0xD800 \<le> c \<and> c \<le> 0xDBFF)"

definition is_trail :: "16 word \<Rightarrow> bool" where
  "is_trail c = (0xDC00 \<le> c \<and> c \<le> 0xDFFF)"

fun utf16_wf :: "jsstring \<Rightarrow> bool" where
  "utf16_wf [] = True"
| "utf16_wf [c] = (\<not> is_lead c \<and> \<not> is_trail c)"
| "utf16_wf (c # d # ds) =
     (if is_lead c then is_trail d \<and> utf16_wf ds
      else \<not> is_trail c \<and> utf16_wf (d # ds))"

definition utf8_len :: "nat \<Rightarrow> nat" where
  "utf8_len v = (if v < 0x80 then 1 else if v < 0x800 then 2 else if v < 0x10000 then 3 else 4)"

fun utf8_byte_count :: "jsstring \<Rightarrow> nat" where
  "utf8_byte_count [] = 0"
| "utf8_byte_count [c] = utf8_len (unat c)"
| "utf8_byte_count (c # d # ds) =
     (if is_lead c \<and> is_trail d then 4 + utf8_byte_count ds
      else utf8_len (unat c) + utf8_byte_count (d # ds))"


text \<open>
  A header that the wire format carries unchanged: a string value, no line feed in name
  or value, no colon in the name, no white space at either end of name or value, and a
  name other than \<open>content-length\<close> and \<open>__proto__\<close>.
\<close>

definition clean_header :: "jsstring \<times> jsval \<Rightarrow> bool" where
  "clean_header kv =
     (case kv of
        (k, Str v) \<Rightarrow>
          BYTES_LF \<notin> set k \<and> 0x3A \<notin> set k \<and> trim k = k \<and> k \<noteq> content_length
          \<and> k \<noteq> str ''__proto__'' \<and> BYTES_LF \<notin> set v \<and> trim v = v
      | (k, Bool b) \<Rightarrow> False)"

text \<open>
  A header whose line cannot pass for another: no line feed in the name or in the string of
  the value, no colon in the name, and a name that is not \<open>content-length\<close> once trimmed.
\<close>

definition plain_header :: "jsstring \<times> jsval \<Rightarrow> bool" where
  "plain_header kv =
     (BYTES_LF \<notin> set (fst kv) \<and> 0x3A \<notin> set (fst kv) \<and> trim (fst kv) \<noteq> content_length
      \<and> BYTES_LF \<notin> set (to_str (snd kv)))"

section \<open>Properties of the string primitives\<close>

lemma cons_first_nonempty [simp]: "cons_first x ps \<noteq> []"
  by (cases ps) simp_all

lemma js_split_nonempty [simp]: "js_split sep s \<noteq> []"
  by (induction s) simp_all

lemma js_substring_take: "js_substring s 0 (int n) = take n s"
  by (simp add: js_substring_def Let_def min_def max_def)

lemma js_substring_minus_one: "js_substring s 0 (- 1) = []"
  by (simp add: js_substring_def Let_def)

lemma js_substring_mid: "js_substring s (int a) (int a + int n) = take n (drop a s)"
  by (cases "a \<le> length s") (auto simp: js_substring_def Let_def min_def max_def nat_add_distrib)

lemma js_substring_from_drop: "js_substring_from s (int a) = drop a s"
  by (auto simp: js_substring_from_def js_substring_def Let_def min_def max_def)


lemma line_name_eq:
  assumes "k @ x # v = c @ x # w" and "x \<notin> set c" and "x \<notin> set w"
  shows "k = c"
  using assms
  by (auto simp: append_eq_append_conv2 append_eq_Cons_conv Cons_eq_append_conv)

lemma digit_char_unat: "d < 10 \<Longrightarrow> unat (of_nat (48 + d) :: 16 word) = 48 + d"
  by (subst unat_of_nat) simp

lemma digit_char_is_digit: "d < 10 \<Longrightarrow> is_digit (of_nat (48 + d))"
  unfolding is_digit_def word_le_nat_alt
  by (subst (1 2) digit_char_unat) simp_all

lemma dec_digits: "list_all is_digit (dec n)"
proof (induction n rule: dec.induct)
  case (1 n)
  show ?case
  proof (cases "n < 10")
    case True
    then show ?thesis by (subst dec.simps) (simp add: digit_char_is_digit del: of_nat_add)
  next
    case False
    with 1 show ?thesis by (subst dec.simps) (simp add: digit_char_is_digit del: of_nat_add)
  qed
qed

lemma dec_nonempty: "dec n \<noteq> []"
  by (subst dec.simps) simp

lemma is_digit_not_colon: "is_digit c \<Longrightarrow> c \<noteq> 0x3A"
  by (auto simp: is_digit_def)

lemma dec_no_colon: "0x3A \<notin> set (dec n)"
  using dec_digits [of n] by (auto simp: list_all_iff dest: is_digit_not_colon)

lemma content_length_no_colon: "0x3A \<notin> set content_length"
  by (simp add: str_def)

lemma obj_get_delete_same: "obj_get (obj_delete obj k) k = None"
  by (induction obj) (auto simp: obj_get_def obj_delete_def)

lemma obj_get_delete_other: "k' \<noteq> k \<Longrightarrow> obj_get (obj_delete obj k) k' = obj_get obj k'"
  by (induction obj) (auto simp: obj_get_def obj_delete_def)

lemma set_object_keys: "set (object_keys obj) = fst ` set obj"
  by (auto simp: object_keys_def)

lemma object_keys_delete: "k \<notin> set (object_keys (obj_delete obj k))"
  by (auto simp: set_object_keys obj_delete_def)

lemma distinct_object_keys: "wf_obj obj \<Longrightarrow> distinct (object_keys obj)"
  by (auto simp: object_keys_def wf_obj_def)
section \<open>\<open>sizeOfUTF8\<close> counts UTF-8 bytes\<close>

lemma uri_unescaped_facts:
  assumes "uri_unescaped c"
  shows "c \<noteq> 0x25" and "\<not> is_line_terminator c" and "unat c < 0x80"
    and "\<not> is_lead c" and "\<not> is_trail c"
  using assms
  by (auto simp: uri_unescaped_def is_line_terminator_def is_lead_def is_trail_def
      word_le_nat_alt word_less_nat_alt)

lemma match_count_unescaped:
  assumes "uri_unescaped c"
  shows "match_count (c # r) = Suc (match_count r)"
proof (cases r)
  case Nil
  then show ?thesis using uri_unescaped_facts [OF assms] by simp
next
  case (Cons a r1)
  then show ?thesis using uri_unescaped_facts [OF assms] by (cases r1) simp_all
qed

lemma hex_digit_range: "d < 16 \<Longrightarrow> 48 \<le> unat (hex_digit d) \<and> unat (hex_digit d) \<le> 70"
  unfolding hex_digit_def
  by (simp add: unat_of_nat del: of_nat_add)

lemma hex_digit_not_lt: "d < 16 \<Longrightarrow> \<not> is_line_terminator (hex_digit d)"
  using hex_digit_range [of d]
  by (auto simp: is_line_terminator_def)

lemma match_count_percent_octet:
  assumes "b < 256"
  shows "match_count (percent_octet b @ r) = Suc (match_count r)"
proof -
  have "b div 16 < 16" "b mod 16 < 16" using assms by simp_all
  then show ?thesis
    by (simp add: percent_octet_def hex_digit_not_lt)
qed

lemma utf8_octets_bound:
  assumes "v < 0x110000"
  shows "list_all (\<lambda>b. b < 256) (utf8_octets v)"
proof -
  have m: "\<And>x::nat. x mod 64 < 128" by (rule less_trans [of _ 64]) simp_all
  have d1: "v < 0x800 \<Longrightarrow> v div 64 < 32" by (rule less_mult_imp_div_less) simp
  have d2: "v < 0x10000 \<Longrightarrow> v div 4096 < 16" by (rule less_mult_imp_div_less) simp
  have d3: "v div 262144 < 5" using assms by (intro less_mult_imp_div_less) simp
  show ?thesis
    unfolding utf8_octets_def using d1 d2 d3
    by (cases "v < 0x80"; cases "v < 0x800"; cases "v < 0x10000") (simp_all add: m)
qed

lemma length_utf8_octets: "length (utf8_octets v) = utf8_len v"
  by (simp add: utf8_octets_def utf8_len_def)

lemma match_count_octets:
  "list_all (\<lambda>b. b < 256) bs \<Longrightarrow>
   match_count (concat (map percent_octet bs) @ r) = length bs + match_count r"
  by (induction bs) (simp_all add: match_count_percent_octet)

lemma match_count_percent_encode:
  "v < 0x110000 \<Longrightarrow> match_count (percent_encode v @ r) = utf8_len v + match_count r"
  by (simp add: percent_encode_def match_count_octets utf8_octets_bound length_utf8_octets)

lemma unat_16_bound: "unat (c :: 16 word) < 0x110000"
  using unsigned_less [of c, where 'a = nat] by simp

lemma pair_code_point:
  assumes "is_lead c" and "is_trail d"
  shows "(unat c - 0xD800) * 0x400 + (unat d - 0xDC00) + 0x10000 < 0x110000"
    and "utf8_len ((unat c - 0xD800) * 0x400 + (unat d - 0xDC00) + 0x10000) = 4"
  using assms
  by (auto simp: is_lead_def is_trail_def word_le_nat_alt utf8_len_def)

lemma encodeURI_wf:
  "utf16_wf s \<Longrightarrow>
   \<exists>t. encodeURI s = Inr t \<and> (\<forall>r. match_count (t @ r) = utf8_byte_count s + match_count r)"
proof (induction s rule: encodeURI.induct)
  case 1
  then show ?case by simp
next
  case (2 c)
  show ?case
  proof (cases "uri_unescaped c")
    case True
    then show ?thesis
      using uri_unescaped_facts(3) [OF True]
      by (simp add: match_count_unescaped utf8_len_def)
  next
    case False
    with 2 show ?thesis
      by (auto simp: is_lead_def is_trail_def match_count_percent_encode unat_16_bound
          word_le_nat_alt)
  qed
next
  case (3 c d ds)
  show ?case
  proof (cases "uri_unescaped c")
    case True
    note facts = uri_unescaped_facts [OF True]
    from 3(4) facts have wf: "utf16_wf (d # ds)" by simp
    from 3(1) [OF True wf] obtain t where
      t: "encodeURI (d # ds) = Inr t"
         "\<And>r. match_count (t @ r) = utf8_byte_count (d # ds) + match_count r"
      by blast
    show ?thesis
      using True t facts by (simp add: match_count_unescaped utf8_len_def)
  next
    case False
    show ?thesis
    proof (cases "is_lead c")
      case True
      with 3(4) have tr: "is_trail d" and wf: "utf16_wf ds" by simp_all
      have c1: "\<not> (0xDC00 \<le> c \<and> c \<le> 0xDFFF)" and c2: "\<not> (c < 0xD800 \<or> 0xDFFF < c)"
        using True by (auto simp: is_lead_def word_le_nat_alt word_less_nat_alt)
      have c3: "0xDC00 \<le> d \<and> d \<le> 0xDFFF" using tr by (simp add: is_trail_def)
      from 3(3) [OF False c1 c2 c3 wf] obtain t where
        t: "encodeURI ds = Inr t"
           "\<And>r. match_count (t @ r) = utf8_byte_count ds + match_count r"
        by blast
      show ?thesis
        using False c1 c2 c3 t True tr pair_code_point [OF True tr]
        by (simp add: match_count_percent_encode)
    next
      case nl: False
      with 3(4) have ntr: "\<not> is_trail c" and wf: "utf16_wf (d # ds)" by simp_all
      have c1: "\<not> (0xDC00 \<le> c \<and> c \<le> 0xDFFF)" using ntr by (simp add: is_trail_def)
      have c2: "c < 0xD800 \<or> 0xDFFF < c"
        using nl ntr by (auto simp: is_lead_def is_trail_def word_le_nat_alt word_less_nat_alt)
      from 3(2) [OF False c1 c2 wf] obtain t where
        t: "encodeURI (d # ds) = Inr t"
           "\<And>r. match_count (t @ r) = utf8_byte_count (d # ds) + match_count r"
        by blast
      show ?thesis
        using False c1 c2 t nl
        by (simp add: match_count_percent_encode unat_16_bound)
    qed
  qed
qed

lemma sizeOfUTF8_wf:
  assumes "utf16_wf s"
  shows "sizeOfUTF8 s = Inr (utf8_byte_count s)"
proof (cases "s = []")
  case True
  then show ?thesis by (simp add: sizeOfUTF8_def)
next
  case False
  from encodeURI_wf [OF assms] obtain t where
    t: "encodeURI s = Inr t"
       "\<And>r. match_count (t @ r) = utf8_byte_count s + match_count r"
    by blast
  from t(2) [of "[]"] have mc: "match_count t = utf8_byte_count s" by simp
  have "0 < utf8_byte_count s"
    using False by (cases s rule: utf8_byte_count.cases) (auto simp: utf8_len_def)
  with False t(1) mc show ?thesis by (simp add: sizeOfUTF8_def)
qed

lemma ascii_wf: "list_all (\<lambda>c. c < 0x80) s \<Longrightarrow> utf16_wf s"
  by (induction s rule: utf16_wf.induct)
     (auto simp: is_lead_def is_trail_def word_le_nat_alt word_less_nat_alt)

lemma ascii_byte_count: "list_all (\<lambda>c. c < 0x80) s \<Longrightarrow> utf8_byte_count s = length s"
  by (induction s rule: utf8_byte_count.induct)
     (auto simp: is_lead_def is_trail_def word_le_nat_alt word_less_nat_alt utf8_len_def)

lemma sizeOfUTF8_ascii: "list_all (\<lambda>c. c < 0x80) s \<Longrightarrow> sizeOfUTF8 s = Inr (length s)"
  by (simp add: sizeOfUTF8_wf ascii_wf ascii_byte_count)
section \<open>Serialisation\<close>

lemma header_line_eq: "header_line hs k = k @ 0x3A # (case obj_get hs k of Some v \<Rightarrow> to_str v | None \<Rightarrow> str ''undefined'')"
  by (simp add: header_line_def)

lemma header_line_not_content_length:
  assumes "k \<noteq> content_length" and "0x3A \<notin> set w"
  shows "header_line hs k \<noteq> content_length @ [0x3A] @ w"
proof
  assume "header_line hs k = content_length @ [0x3A] @ w"
  then have "k @ 0x3A # (case obj_get hs k of Some v \<Rightarrow> to_str v | None \<Rightarrow> str ''undefined'')
             = content_length @ 0x3A # w"
    by (simp add: header_line_eq)
  from line_name_eq [OF this content_length_no_colon assms(2)] assms(1) show False by simp
qed

lemma false_no_colon: "0x3A \<notin> set (str ''false'')"
  by (simp add: str_def)

lemma length_js_join:
  "length (js_join sep ls) = sum_list (map length ls) + (length ls - 1)"
  by (induction sep ls rule: js_join.induct) simp_all

text \<open>
  C4, amended. For every non-empty body in which every surrogate is paired, and headers
  without the suppression sentinel, the array of lines that \<open>toString\<close> joins ends with
  the line \<open>content-length:N\<close> and the line of the body, where \<open>N\<close> is the decimal
  string of the number of bytes of the UTF-8 encoding of the body; \<open>marshall\<close> returns the
  joined lines and the NULL. The witness is the body of the single character U+20AC,
  three bytes in UTF-8.
\<close>

theorem content_length_is_byte_count:
  assumes "utf16_wf b" and "b \<noteq> []" and "obj_get hs content_length \<noteq> Some (Bool False)"
  shows "fst (toString_lines \<lparr>command = cmd, headers = hs, body = b\<rparr>) =
           Inr ([cmd] @ map (header_line hs) (object_keys hs)
                @ [content_length @ [0x3A] @ dec (utf8_byte_count b)]
                @ [BYTES_dot_LF # b])
         \<and> marshall cmd hs b =
           Inr (js_join BYTES_dot_LF
                  ([cmd] @ map (header_line hs) (object_keys hs)
                   @ [content_length @ [0x3A] @ dec (utf8_byte_count b)]
                   @ [BYTES_dot_LF # b]) @ [BYTES_NULL])"
  using assms
  by (simp add: marshall_def toString_def toString_lines_def Let_def sizeOfUTF8_wf)

theorem content_length_is_byte_count_witness:
  "utf16_wf [0x20AC] \<and> [0x20AC :: 16 word] \<noteq> []
   \<and> obj_get [] content_length \<noteq> Some (Bool False)
   \<and> fst (toString_lines \<lparr>command = str ''SEND'', headers = [], body = [0x20AC]\<rparr>) =
       Inr [str ''SEND'', str ''content-length:3'', [BYTES_LF, 0x20AC]]
   \<and> marshall (str ''SEND'') [] [0x20AC] =
       Inr (str ''SEND'' @ [BYTES_LF] @ str ''content-length:3'' @ [BYTES_LF, BYTES_LF, 0x20AC, BYTES_NULL])"
  using content_length_is_byte_count [of "[0x20AC]" "[]" "str ''SEND''"]
  by (simp add: is_lead_def is_trail_def obj_get_def object_keys_def utf8_len_def
      dec.simps [of 3] str_def BYTES_dot_LF_def)

text \<open>
  C4 as stated fails on a body that has no encoding: on the unpaired surrogate U+D800
  \<open>encodeURI\<close> throws, and \<open>marshall\<close> returns no frame.
\<close>

theorem content_length_lone_surrogate:
  "[0xD800 :: 16 word] \<noteq> []
   \<and> obj_get [] content_length \<noteq> Some (Bool False)
   \<and> marshall (str ''SEND'') [] [0xD800] = Inl URIError"
  by (simp add: marshall_def toString_def toString_lines_def Let_def sizeOfUTF8_def
      obj_get_def uri_unescaped_def)

lemma js_join_length_neq:
  "js_join sep (ls @ [x, y]) \<noteq> js_join sep (ls @ [y])"
proof -
  have "length (js_join sep (ls @ [x, y])) \<noteq> length (js_join sep (ls @ [y]))"
    by (simp add: length_js_join)
  then show ?thesis by metis
qed

lemma dec_lt10: "n < 10 \<Longrightarrow> dec n = [of_nat (48 + n)]"
  by (subst dec.simps) simp

text \<open>
  C10, amended. \<open>toString\<close> on a frame whose headers hold the sentinel leaves the frame
  with the key deleted. When the body is not empty and every surrogate in it is paired, a
  second \<open>toString\<close> on the frame so left returns the lines of the first call with the line
  \<open>content-length:N\<close> added before the body, \<open>N\<close> the byte count of the body, and the two
  results differ.
\<close>

theorem toString_twice:
  assumes "obj_get (headers f) content_length = Some (Bool False)"
    and "body f \<noteq> []" and "utf16_wf (body f)"
  shows "headers (snd (toString f)) = obj_delete (headers f) content_length
         \<and> obj_get (headers (snd (toString f))) content_length = None
         \<and> fst (toString_lines f) =
             Inr ([command f]
                  @ map (header_line (headers (snd (toString f))))
                        (object_keys (headers (snd (toString f))))
                  @ [BYTES_dot_LF # body f])
         \<and> fst (toString_lines (snd (toString f))) =
             Inr ([command f]
                  @ map (header_line (headers (snd (toString f))))
                        (object_keys (headers (snd (toString f))))
                  @ [content_length @ [0x3A] @ dec (utf8_byte_count (body f))]
                  @ [BYTES_dot_LF # body f])
         \<and> fst (toString (snd (toString f))) \<noteq> fst (toString f)"
proof -
  let ?hs = "obj_delete (headers f) content_length"
  let ?f1 = "f\<lparr>headers := ?hs\<rparr>"
  let ?H = "map (header_line ?hs) (object_keys ?hs)"
  have first: "toString_lines f = (Inr ([command f] @ ?H @ [BYTES_dot_LF # body f]), ?f1)"
    using assms by (simp add: toString_lines_def Let_def)
  then have snd1: "snd (toString f) = ?f1"
    by (simp add: toString_def)
  have gone: "obj_get ?hs content_length = None"
    by (rule obj_get_delete_same)
  have second: "toString_lines ?f1 =
      (Inr ([command f] @ ?H @ [content_length @ [0x3A] @ dec (utf8_byte_count (body f))]
            @ [BYTES_dot_LF # body f]), ?f1)"
    using assms gone by (simp add: toString_lines_def Let_def sizeOfUTF8_wf)
  have "js_join BYTES_dot_LF
          (([command f] @ ?H) @ [content_length @ [0x3A] @ dec (utf8_byte_count (body f)),
                                 BYTES_dot_LF # body f])
        \<noteq> js_join BYTES_dot_LF (([command f] @ ?H) @ [BYTES_dot_LF # body f])"
    by (rule js_join_length_neq)
  then have differ: "fst (toString ?f1) \<noteq> fst (toString f)"
    using first second by (simp add: toString_def)
  show ?thesis
    using first second snd1 gone differ by simp
qed

theorem toString_twice_witness:
  "obj_get [(content_length, Bool False)] content_length = Some (Bool False)
   \<and> str ''hi'' \<noteq> [] \<and> utf16_wf (str ''hi'')
   \<and> fst (toString \<lparr>command = str ''SEND'', headers = [(content_length, Bool False)],
                     body = str ''hi''\<rparr>)
       = Inr (str ''SEND'' @ [BYTES_LF, BYTES_LF] @ str ''hi'')
   \<and> headers (snd (toString \<lparr>command = str ''SEND'',
                      headers = [(content_length, Bool False)], body = str ''hi''\<rparr>)) = []
   \<and> fst (toString (snd (toString \<lparr>command = str ''SEND'',
                      headers = [(content_length, Bool False)], body = str ''hi''\<rparr>)))
       = Inr (str ''SEND'' @ [BYTES_LF] @ str ''content-length:2'' @ [BYTES_LF, BYTES_LF]
              @ str ''hi'')"
  using toString_twice [of "\<lparr>command = str ''SEND'',
                      headers = [(content_length, Bool False)], body = str ''hi''\<rparr>"]
  by (simp add: toString_def toString_lines_def Let_def obj_get_def obj_delete_def
      object_keys_def str_def BYTES_dot_LF_def is_lead_def is_trail_def utf8_len_def
      dec_lt10 sizeOfUTF8_def uri_unescaped_def is_line_terminator_def)

text \<open>
  C10 as stated fails on a body with an unpaired surrogate: the first call succeeds, the
  second throws \<open>URIError\<close> and adds no header.
\<close>

theorem toString_twice_lone_surrogate:
  "obj_get [(content_length, Bool False)] content_length = Some (Bool False)
   \<and> [0xD800 :: 16 word] \<noteq> []
   \<and> fst (toString \<lparr>command = str ''SEND'', headers = [(content_length, Bool False)],
                     body = [0xD800]\<rparr>)
       = Inr (str ''SEND'' @ [BYTES_LF, BYTES_LF, 0xD800])
   \<and> fst (toString (snd (toString \<lparr>command = str ''SEND'',
                      headers = [(content_length, Bool False)], body = [0xD800]\<rparr>)))
       = Inl URIError"
  by (simp add: toString_def toString_lines_def Let_def obj_get_def obj_delete_def
      object_keys_def str_def BYTES_dot_LF_def sizeOfUTF8_def uri_unescaped_def)
section \<open>Parsing\<close>

lemma find_sub_divider_here:
  "BYTES_LF \<notin> set c \<Longrightarrow>
   find_sub [BYTES_LF, BYTES_LF] (c @ BYTES_LF # BYTES_LF # rest) = Some (length c)"
  by (induction c) auto

lemma find_sub_skip_line:
  "BYTES_LF \<notin> set c \<Longrightarrow> t \<noteq> [] \<Longrightarrow> hd t \<noteq> BYTES_LF \<Longrightarrow>
   find_sub [BYTES_LF, BYTES_LF] (c @ BYTES_LF # t) =
     map_option (\<lambda>i. length c + 1 + i) (find_sub [BYTES_LF, BYTES_LF] t)"
proof (induction c)
  case Nil
  then show ?case by (cases t) (auto simp: option.map_comp comp_def)
next
  case (Cons x c)
  then show ?case by (auto simp: option.map_comp comp_def)
qed

lemma js_join_Cons: "ls \<noteq> [] \<Longrightarrow> js_join sep (l # ls) = l @ sep # js_join sep ls"
  by (cases ls) simp_all

lemma js_join_snoc: "ls \<noteq> [] \<Longrightarrow> js_join sep (ls @ [l]) = js_join sep ls @ sep # l"
  by (induction sep ls rule: js_join.induct) simp_all

lemma find_sub_wire:
  assumes "BYTES_LF \<notin> set c" and "list_all (\<lambda>l. l \<noteq> [] \<and> BYTES_LF \<notin> set l) ls"
  shows "find_sub [BYTES_LF, BYTES_LF] (js_join BYTES_LF (c # ls) @ BYTES_LF # BYTES_LF # rest)
         = Some (length (js_join BYTES_LF (c # ls)))"
  using assms
proof (induction ls arbitrary: c)
  case Nil
  then show ?case by (simp add: find_sub_divider_here)
next
  case (Cons l ls)
  let ?t = "js_join BYTES_LF (l # ls) @ BYTES_LF # BYTES_LF # rest"
  from Cons.prems have l: "l \<noteq> []" "BYTES_LF \<notin> set l"
    and ls: "list_all (\<lambda>l. l \<noteq> [] \<and> BYTES_LF \<notin> set l) ls" by simp_all
  have hd_t: "hd ?t = hd l"
    using l(1) by (cases ls) simp_all
  have "hd l \<in> set l" using l(1) by simp
  with l(2) have "hd l \<noteq> BYTES_LF" by metis
  with hd_t have t: "?t \<noteq> []" "hd ?t \<noteq> BYTES_LF" by simp_all
  have "js_join BYTES_LF (c # l # ls) @ BYTES_LF # BYTES_LF # rest = c @ BYTES_LF # ?t"
    by simp
  then show ?case
    using find_sub_skip_line [OF Cons.prems(1) t] Cons.IH [OF l(2) ls] by simp
qed

lemma js_split_no_sep: "sep \<notin> set c \<Longrightarrow> js_split sep c = [c]"
  by (induction c) auto

lemma js_split_line: "sep \<notin> set c \<Longrightarrow> js_split sep (c @ sep # t) = c # js_split sep t"
  by (induction c) auto

lemma js_split_join:
  "list_all (\<lambda>l. sep \<notin> set l) (c # ls) \<Longrightarrow> js_split sep (js_join sep (c # ls)) = c # ls"
proof (induction ls arbitrary: c)
  case Nil
  then show ?case by (simp add: js_split_no_sep)
next
  case (Cons l ls)
  then show ?case by (simp add: js_split_line)
qed

lemma find_sub_char: "x \<notin> set k \<Longrightarrow> find_sub [x] (k @ x # v) = Some (length k)"
  by (induction k) auto

lemma header_entry_line:
  assumes "0x3A \<notin> set k"
  shows "header_entry (k @ 0x3A # v) = (trim k, trim v)"
proof -
  have idx: "js_indexOf (k @ 0x3A # v) [0x3A] = int (length k)"
    by (simp add: js_indexOf_def find_sub_char [OF assms])
  have "js_substring_from (k @ 0x3A # v) (int (length k) + 1) = v"
    using js_substring_from_drop [of "k @ 0x3A # v" "Suc (length k)"] by (simp add: add.commute)
  then show ?thesis
    by (simp add: header_entry_def idx js_substring_take Let_def)
qed

lemma obj_get_Nil: "obj_get [] k = None"
  by (simp add: obj_get_def)

lemma obj_get_Cons: "obj_get ((k, v) # obj) k' = (if k' = k then Some v else obj_get obj k')"
  by (simp add: obj_get_def)

lemma obj_get_set: "obj_get (obj_set obj k v) k' = (if k' = k then Some v else obj_get obj k')"
  by (induction obj) (auto simp: obj_get_def)

lemma parse_headers_Nil: "parse_headers [] = []"
  by (simp add: parse_headers_def)

lemma parse_headers_Cons:
  "parse_headers (l # ls) =
     assign_header (parse_headers ls) (fst (header_entry l)) (snd (header_entry l))"
  by (simp add: parse_headers_def)

lemma obj_get_parse_headers:
  "obj_get (parse_headers ls) n =
     (if n = str ''__proto__'' then None
      else map_of (map (\<lambda>l. (fst (header_entry l), Str (snd (header_entry l)))) ls) n)"
  by (induction ls)
    (auto simp: parse_headers_Nil parse_headers_Cons assign_header_def obj_get_set
      obj_get_Nil)

lemma content_length_not_proto: "content_length \<noteq> str ''__proto__''"
  by (simp add: str_def)

lemma unmarshallSingle_wire_head:
  assumes "BYTES_LF \<notin> set c" and "list_all (\<lambda>l. l \<noteq> [] \<and> BYTES_LF \<notin> set l) ls"
  shows "command (unmarshallSingle (js_join BYTES_LF (c # ls) @ BYTES_LF # BYTES_LF # rest)) = c"
    and "headers (unmarshallSingle (js_join BYTES_LF (c # ls) @ BYTES_LF # BYTES_LF # rest))
         = parse_headers ls"
proof -
  let ?J = "js_join BYTES_LF (c # ls)"
  let ?data = "?J @ BYTES_LF # BYTES_LF # rest"
  have dv: "js_indexOf ?data [BYTES_LF, BYTES_LF] = int (length ?J)"
    by (simp add: js_indexOf_def find_sub_wire [OF assms])
  have "list_all (\<lambda>l. BYTES_LF \<notin> set l) (c # ls)"
    using assms by (simp add: list_all_iff)
  then have spl: "js_split BYTES_LF ?J = c # ls" by (rule js_split_join)
  have sub: "js_substring ?data 0 (int (length ?J)) = ?J"
    by (simp add: js_substring_take)
  show "command (unmarshallSingle ?data) = c"
    by (simp add: unmarshallSingle_def Let_def dv sub spl del: js_join.simps)
  show "headers (unmarshallSingle ?data) = parse_headers ls"
    by (simp add: unmarshallSingle_def Let_def dv sub spl del: js_join.simps)
qed

text \<open>
  C3, amended. A wire frame is a command, header lines, the divider of two line feeds and
  the rest. Whatever the lines, the value that \<open>unmarshallSingle\<close> binds to a header name
  other than \<open>__proto__\<close> is the value of the first line, in wire order, that carries the
  name: lines further from the command with the same name do not change it. The witness
  is the header block \<open>a:1\<close>, \<open>a:2\<close>.
\<close>

theorem first_header_wins:
  assumes "BYTES_LF \<notin> set cmd"
    and "list_all (\<lambda>l. l \<noteq> [] \<and> BYTES_LF \<notin> set l) ls"
    and "i < length ls"
    and "fst (header_entry (ls ! i)) = name"
    and "list_all (\<lambda>l. fst (header_entry l) \<noteq> name) (take i ls)"
    and "name \<noteq> str ''__proto__''"
  shows "obj_get (headers (unmarshallSingle
                    (js_join BYTES_LF (cmd # ls) @ BYTES_LF # BYTES_LF # rest))) name
         = Some (Str (snd (header_entry (ls ! i))))"
proof -
  let ?e = "\<lambda>l. (fst (header_entry l), Str (snd (header_entry l)))"
  have ls: "ls = take i ls @ (ls ! i) # drop (Suc i) ls"
    using assms(3) by (rule id_take_nth_drop)
  have none: "map_of (map ?e (take i ls)) name = None"
    using assms(5) by (induction "take i ls" arbitrary: i ls) (auto simp: list_all_iff map_of_eq_None_iff image_iff)
  have "map_of (map ?e ls) name
        = map_of (map ?e (take i ls) @ ?e (ls ! i) # map ?e (drop (Suc i) ls)) name"
    by (subst ls) simp
  also have "\<dots> = Some (Str (snd (header_entry (ls ! i))))"
    using none assms(4) by (simp add: map_add_def)
  finally show ?thesis
    using assms(6)
    by (simp add: unmarshallSingle_wire_head [OF assms(1,2)] obj_get_parse_headers)
qed

theorem first_header_wins_witness:
  "BYTES_LF \<notin> set (str ''CMD'')
   \<and> list_all (\<lambda>l. l \<noteq> [] \<and> BYTES_LF \<notin> set l) [str ''a:1'', str ''a:2'']
   \<and> (0::nat) < length [str ''a:1'', str ''a:2'']
   \<and> fst (header_entry ([str ''a:1'', str ''a:2''] ! 0)) = str ''a''
   \<and> list_all (\<lambda>l. fst (header_entry l) \<noteq> str ''a'') (take 0 [str ''a:1'', str ''a:2''])
   \<and> str ''a'' \<noteq> str ''__proto__''
   \<and> obj_get (headers (unmarshallSingle
          (str ''CMD'' @ [BYTES_LF] @ str ''a:1'' @ [BYTES_LF] @ str ''a:2''
           @ [BYTES_LF, BYTES_LF] @ str ''body''))) (str ''a'')
       = Some (Str (str ''1''))"
  using first_header_wins [of "str ''CMD''" "[str ''a:1'', str ''a:2'']" 0 "str ''a''" "str ''body''"]
  by (simp add: str_def header_entry_def js_indexOf_def js_substring_def
      js_substring_from_def Let_def trim_def is_space_def)

text \<open>
  C3 as stated fails for the header name \<open>__proto__\<close>. In the header block \<open>__proto__:1\<close>,
  \<open>__proto__:2\<close> both lines carry that name, the first with the value \<open>1\<close>, and
  \<open>unmarshallSingle\<close> returns a frame whose headers have no property at all: the value of
  the first line is not bound to the name.
\<close>

theorem first_header_wins_proto:
  "header_entry (str ''__proto__:1'') = (str ''__proto__'', str ''1'')
   \<and> header_entry (str ''__proto__:2'') = (str ''__proto__'', str ''2'')
   \<and> command (unmarshallSingle
         (str ''CMD'' @ [BYTES_LF] @ str ''__proto__:1'' @ [BYTES_LF] @ str ''__proto__:2''
          @ [BYTES_LF, BYTES_LF] @ str ''body'')) = str ''CMD''
   \<and> headers (unmarshallSingle
         (str ''CMD'' @ [BYTES_LF] @ str ''__proto__:1'' @ [BYTES_LF] @ str ''__proto__:2''
          @ [BYTES_LF, BYTES_LF] @ str ''body'')) = []
   \<and> obj_get (headers (unmarshallSingle
         (str ''CMD'' @ [BYTES_LF] @ str ''__proto__:1'' @ [BYTES_LF] @ str ''__proto__:2''
          @ [BYTES_LF, BYTES_LF] @ str ''body''))) (str ''__proto__'')
       \<noteq> Some (Str (str ''1''))"
  by (simp add: str_def header_entry_def js_indexOf_def js_substring_def
      js_substring_from_def Let_def trim_def is_space_def unmarshallSingle_def
      parse_headers_def assign_header_def obj_get_def)

lemma digits_val_snoc: "digits_val (ds @ [d]) = 10 * digits_val ds + (unat d - 48)"
  by (simp add: digits_val_def)

lemma digits_val_dec: "digits_val (dec n) = n"
proof (induction n rule: dec.induct)
  case (1 n)
  show ?case
  proof (cases "n < 10")
    case True
    then show ?thesis
      by (subst dec.simps) (simp add: digits_val_def digit_char_unat del: of_nat_add)
  next
    case False
    have "n mod 10 < 10" by simp
    from digit_char_unat [OF this] have "unat (of_nat (48 + n mod 10) :: 16 word) - 48 = n mod 10"
      by simp
    with False 1 show ?thesis
      by (subst dec.simps) (simp add: digits_val_snoc del: of_nat_add)
  qed
qed

lemma is_digit_facts:
  assumes "is_digit c"
  shows "\<not> is_space c" and "c \<noteq> 0x2D" and "c \<noteq> 0x2B" and "c \<noteq> BYTES_LF"
  using assms by (auto simp: is_digit_def is_space_def word_le_nat_alt)

lemma takeWhile_all: "list_all P xs \<Longrightarrow> takeWhile P xs = xs"
  by (induction xs) simp_all

lemma parseInt10_dec: "parseInt10 (dec n) = Some (int n)"
proof -
  obtain c r where cr: "dec n = c # r"
    using dec_nonempty [of n] by (cases "dec n") auto
  have all: "list_all is_digit (c # r)" using dec_digits [of n] cr by simp
  then have c: "is_digit c" by simp
  note f = is_digit_facts [OF c]
  have "takeWhile is_digit (c # r) = c # r" using all by (rule takeWhile_all)
  then show ?thesis
    using f digits_val_dec [of n] cr
    by (simp add: parseInt10_def Let_def)
qed

lemma dropWhile_hd: "xs \<noteq> [] \<Longrightarrow> \<not> P (hd xs) \<Longrightarrow> dropWhile P xs = xs"
  by (cases xs) simp_all

lemma trim_id:
  assumes "s \<noteq> []" and "\<not> is_space (hd s)" and "\<not> is_space (last s)"
  shows "trim s = s"
proof -
  have 1: "dropWhile is_space s = s" using assms(1,2) by (rule dropWhile_hd)
  have "rev s \<noteq> []" "\<not> is_space (hd (rev s))" using assms(1,3) by (simp_all add: hd_rev)
  then have 2: "dropWhile is_space (rev s) = rev s" by (rule dropWhile_hd)
  show ?thesis by (simp add: trim_def 1 2)
qed

lemma trim_dec: "trim (dec n) = dec n"
proof -
  have ne: "dec n \<noteq> []" by (rule dec_nonempty)
  then have "hd (dec n) \<in> set (dec n)" "last (dec n) \<in> set (dec n)" by simp_all
  then have "is_digit (hd (dec n))" "is_digit (last (dec n))"
    using dec_digits [of n] by (simp_all add: list_all_iff)
  then show ?thesis using ne by (intro trim_id) (simp_all add: is_digit_facts)
qed

lemma trim_content_length: "trim content_length = content_length"
  by (simp add: trim_def str_def is_space_def)

lemma dec_no_LF: "BYTES_LF \<notin> set (dec n)"
  using dec_digits [of n] by (auto simp: list_all_iff dest: is_digit_facts(4))

lemma content_length_no_LF: "BYTES_LF \<notin> set content_length"
  by (simp add: str_def)

lemma unmarshallSingle_wire_body_length:
  assumes "BYTES_LF \<notin> set c" and "list_all (\<lambda>l. l \<noteq> [] \<and> BYTES_LF \<notin> set l) ls"
    and "obj_get (parse_headers ls) content_length = Some (Str (dec n))"
  shows "body (unmarshallSingle (js_join BYTES_LF (c # ls) @ BYTES_LF # BYTES_LF # rest))
         = take n rest"
proof -
  let ?J = "js_join BYTES_LF (c # ls)"
  let ?data = "?J @ BYTES_LF # BYTES_LF # rest"
  have dv: "js_indexOf ?data [BYTES_LF, BYTES_LF] = int (length ?J)"
    by (simp add: js_indexOf_def find_sub_wire [OF assms(1,2)])
  have "list_all (\<lambda>l. BYTES_LF \<notin> set l) (c # ls)"
    using assms by (simp add: list_all_iff)
  then have spl: "js_split BYTES_LF ?J = c # ls" by (rule js_split_join)
  have sub: "js_substring ?data 0 (int (length ?J)) = ?J"
    by (simp add: js_substring_take)
  have "js_substring ?data (int (length ?J + 2)) (int (length ?J + 2) + int n)
        = take n (drop (length ?J + 2) ?data)"
    by (rule js_substring_mid)
  also have "\<dots> = take n rest" by simp
  finally have mid: "js_substring ?data (int (length ?J) + 2) (int (length ?J) + 2 + int n)
        = take n rest"
    by (simp add: add.commute)
  show ?thesis
    using assms(3) dec_nonempty [of n]
    by (simp add: unmarshallSingle_def Let_def dv sub spl parseInt10_dec mid
        del: js_join.simps)
qed

lemma unmarshallSingle_wire_body_null:
  assumes "BYTES_LF \<notin> set c" and "list_all (\<lambda>l. l \<noteq> [] \<and> BYTES_LF \<notin> set l) ls"
    and "obj_get (parse_headers ls) content_length = None"
  shows "body (unmarshallSingle (js_join BYTES_LF (c # ls) @ BYTES_LF # BYTES_LF # rest))
         = takeWhile (\<lambda>chr. chr \<noteq> BYTES_NULL) rest"
proof -
  let ?J = "js_join BYTES_LF (c # ls)"
  let ?data = "?J @ BYTES_LF # BYTES_LF # rest"
  have dv: "js_indexOf ?data [BYTES_LF, BYTES_LF] = int (length ?J)"
    by (simp add: js_indexOf_def find_sub_wire [OF assms(1,2)])
  have "list_all (\<lambda>l. BYTES_LF \<notin> set l) (c # ls)"
    using assms by (simp add: list_all_iff)
  then have spl: "js_split BYTES_LF ?J = c # ls" by (rule js_split_join)
  have sub: "js_substring ?data 0 (int (length ?J)) = ?J"
    by (simp add: js_substring_take)
  have bi: "nat (int (length ?J) + 2) = length ?J + 2"
    by (simp add: nat_add_distrib)
  show ?thesis
    using assms(3)
    by (simp add: unmarshallSingle_def Let_def dv sub spl bi del: js_join.simps)
qed

lemma map_of_wf: "wf_obj obj \<Longrightarrow> (k, v) \<in> set obj \<Longrightarrow> obj_get obj k = Some v"
  by (simp add: wf_obj_def obj_get_def)

lemma clean_header_line:
  assumes "wf_obj hs" and "list_all clean_header hs" and "k \<in> set (object_keys hs)"
  shows "\<exists>v. obj_get hs k = Some (Str v) \<and> header_line hs k = k @ 0x3A # v
             \<and> header_entry (header_line hs k) = (k, v)
             \<and> BYTES_LF \<notin> set (header_line hs k) \<and> k \<noteq> content_length
             \<and> k \<noteq> str ''__proto__''"
proof -
  from assms(3) obtain w where kw: "(k, w) \<in> set hs"
    by (auto simp: set_object_keys)
  with assms(2) have cl: "clean_header (k, w)" by (simp add: list_all_iff)
  then obtain v where w: "w = Str v" by (cases w) (simp_all add: clean_header_def)
  from cl w have c: "BYTES_LF \<notin> set k" "0x3A \<notin> set k" "trim k = k" "k \<noteq> content_length"
    "BYTES_LF \<notin> set v" "trim v = v" "k \<noteq> str ''__proto__''"
    by (simp_all add: clean_header_def)
  have get: "obj_get hs k = Some (Str v)" using map_of_wf [OF assms(1) kw] w by simp
  then have line: "header_line hs k = k @ 0x3A # v" by (simp add: header_line_def)
  have "header_entry (header_line hs k) = (k, v)"
    using header_entry_line [OF c(2), of v] c(3,6) line by simp
  with get line c show ?thesis by simp
qed

lemma obj_get_None_keys: "k \<notin> set (object_keys obj) \<Longrightarrow> obj_get obj k = None"
  by (simp add: set_object_keys obj_get_def map_of_eq_None_iff)

lemma parse_clean_lines:
  assumes "wf_obj hs" and "list_all clean_header hs" and "set ks \<subseteq> set (object_keys hs)"
  shows "map_of (map (\<lambda>l. (fst (header_entry l), Str (snd (header_entry l))))
                     (map (header_line hs) ks)) n
         = (if n \<in> set ks then obj_get hs n else None)"
  using assms(3)
proof (induction ks)
  case Nil
  then show ?case by simp
next
  case (Cons k ks)
  from Cons.prems have k: "k \<in> set (object_keys hs)" and ks: "set ks \<subseteq> set (object_keys hs)"
    by simp_all
  from clean_header_line [OF assms(1,2) k] obtain v where
    v: "obj_get hs k = Some (Str v)" "header_entry (header_line hs k) = (k, v)" by blast
  show ?case using Cons.IH [OF ks] v by simp
qed

lemma js_join_append:
  "xs \<noteq> [] \<Longrightarrow> ys \<noteq> [] \<Longrightarrow>
   js_join sep (xs @ ys) = js_join sep xs @ sep # js_join sep ys"
proof (induction sep xs rule: js_join.induct)
  case (1 sep)
  then show ?case by simp
next
  case (2 sep l)
  then show ?case by (cases ys) simp_all
next
  case (3 sep l m ls)
  then show ?case by simp
qed

text \<open>
  C1, amended. For a command without line feed, headers that are all clean (a string
  value, no line feed in name or value, no colon in the name, no white space at either
  end of name or value, a name other than \<open>content-length\<close> and \<open>__proto__\<close>; and an object
  with each key once), and a body of code units below 128, \<open>marshall\<close> succeeds and
  \<open>unmarshallSingle\<close> of its result has the command and the body unchanged and the headers
  of the original, to which \<open>content-length\<close>, the length of the body, is added when the
  body is not empty.
\<close>

theorem round_trip:
  assumes "wf_obj hs" and "list_all clean_header hs"
    and "BYTES_LF \<notin> set cmd" and "list_all (\<lambda>c. c < 0x80) b"
  shows "\<exists>w. marshall cmd hs b = Inr w
             \<and> command (unmarshallSingle w) = cmd
             \<and> body (unmarshallSingle w) = b
             \<and> (\<forall>k. obj_get (headers (unmarshallSingle w)) k =
                     (if k = content_length \<and> b \<noteq> [] then Some (Str (dec (length b)))
                      else obj_get hs k))"
proof -
  let ?H = "map (header_line hs) (object_keys hs)"
  let ?cl = "content_length @ 0x3A # dec (length b)"
  define ls where "ls = (if b = [] then ?H else ?H @ [?cl])"
  define w where "w = js_join BYTES_LF (cmd # ls) @ BYTES_LF # BYTES_LF # (b @ [BYTES_NULL])"
  have nosent: "obj_get hs content_length \<noteq> Some (Bool False)"
  proof
    assume "obj_get hs content_length = Some (Bool False)"
    then have "(content_length, Bool False) \<in> set hs"
      by (simp add: obj_get_def map_of_SomeD)
    with assms(2) show False by (auto simp: list_all_iff clean_header_def)
  qed
  have nokey: "content_length \<notin> set (object_keys hs)"
    using clean_header_line [OF assms(1,2)] by blast
  have "str ''__proto__'' \<notin> set (object_keys hs)"
    using clean_header_line [OF assms(1,2)] by blast
  then have noproto: "obj_get hs (str ''__proto__'') = None"
    by (rule obj_get_None_keys)
  have j1: "js_join BYTES_LF (cmd # ?H @ [x]) = js_join BYTES_LF (cmd # ?H) @ BYTES_LF # x"
    for x
    using js_join_append [of "cmd # ?H" "[x]" BYTES_LF] by simp
  have j2: "js_join BYTES_LF (cmd # ?H @ [?cl, x])
            = js_join BYTES_LF (cmd # ?H @ [?cl]) @ BYTES_LF # x" for x
    using js_join_append [of "cmd # ?H @ [?cl]" "[x]" BYTES_LF] by simp
  have m: "marshall cmd hs b = Inr w"
    using nosent assms(4)
    by (simp add: marshall_def toString_def toString_lines_def Let_def sizeOfUTF8_ascii
        BYTES_dot_LF_def j1 j2 w_def ls_def del: js_join.simps)
  have Hlines: "list_all (\<lambda>l. l \<noteq> [] \<and> BYTES_LF \<notin> set l) ?H"
    using clean_header_line [OF assms(1,2)] by (fastforce simp: list_all_iff)
  have "?cl \<noteq> [] \<and> BYTES_LF \<notin> set ?cl"
    using dec_no_LF [of "length b"] content_length_no_LF by simp
  with Hlines have lines: "list_all (\<lambda>l. l \<noteq> [] \<and> BYTES_LF \<notin> set l) ls"
    by (simp add: ls_def)
  have cl_entry: "header_entry ?cl = (content_length, dec (length b))"
    using header_entry_line [OF content_length_no_colon, of "dec (length b)"]
    by (simp add: trim_content_length trim_dec)
  have lookup: "obj_get (parse_headers ls) k =
      (if k = content_length \<and> b \<noteq> [] then Some (Str (dec (length b))) else obj_get hs k)"
    for k
  proof (cases "b = []")
    case True
    then show ?thesis
      using parse_clean_lines [OF assms(1,2) subset_refl, of k] obj_get_None_keys [of k hs]
        noproto
      by (simp add: obj_get_parse_headers ls_def)
  next
    case False
    then show ?thesis
      using parse_clean_lines [OF assms(1,2) subset_refl, of k] obj_get_None_keys [of k hs]
        nokey cl_entry noproto content_length_not_proto
      by (auto simp: obj_get_parse_headers ls_def map_add_def split: option.split)
  qed
  have cmd_ok: "command (unmarshallSingle w) = cmd"
    unfolding w_def by (rule unmarshallSingle_wire_head(1) [OF assms(3) lines])
  have hs_ok: "headers (unmarshallSingle w) = parse_headers ls"
    unfolding w_def by (rule unmarshallSingle_wire_head(2) [OF assms(3) lines])
  have body_ok: "body (unmarshallSingle w) = b"
  proof (cases "b = []")
    case True
    with lookup [of content_length] obj_get_None_keys [OF nokey]
    have "obj_get (parse_headers ls) content_length = None" by simp
    from unmarshallSingle_wire_body_null [OF assms(3) lines this, of "b @ [BYTES_NULL]"] True
    show ?thesis by (simp add: w_def)
  next
    case False
    with lookup [of content_length]
    have "obj_get (parse_headers ls) content_length = Some (Str (dec (length b)))" by simp
    from unmarshallSingle_wire_body_length [OF assms(3) lines this, of "b @ [BYTES_NULL]"]
    show ?thesis by (simp add: w_def)
  qed
  show ?thesis
    using m cmd_ok body_ok hs_ok lookup by simp
qed

text \<open>The round trip of a \<open>SEND\<close> frame with one header and the body \<open>hi\<close>.\<close>

theorem round_trip_witness:
  "wf_obj [(str ''destination'', Str (str ''/queue/a''))]
   \<and> list_all clean_header [(str ''destination'', Str (str ''/queue/a''))]
   \<and> BYTES_LF \<notin> set (str ''SEND'')
   \<and> list_all (\<lambda>c. c < 0x80) (str ''hi'')
   \<and> (\<exists>w. marshall (str ''SEND'') [(str ''destination'', Str (str ''/queue/a''))] (str ''hi'')
              = Inr w
            \<and> command (unmarshallSingle w) = str ''SEND''
            \<and> body (unmarshallSingle w) = str ''hi''
            \<and> obj_get (headers (unmarshallSingle w)) (str ''destination'')
                = Some (Str (str ''/queue/a''))
            \<and> obj_get (headers (unmarshallSingle w)) content_length = Some (Str (str ''2'')))"
proof -
  have h: "wf_obj [(str ''destination'', Str (str ''/queue/a''))]"
    "list_all clean_header [(str ''destination'', Str (str ''/queue/a''))]"
    "BYTES_LF \<notin> set (str ''SEND'')"
    "list_all (\<lambda>c. c < 0x80) (str ''hi'')"
    by (simp_all add: wf_obj_def clean_header_def trim_def is_space_def str_def)
  have d: "dec (length (str ''hi'')) = str ''2''"
    by (simp add: dec_lt10 str_def)
  have ne: "str ''destination'' \<noteq> content_length" "str ''hi'' \<noteq> []"
    by (simp_all add: str_def)
  from round_trip [OF h] obtain w where
    w: "marshall (str ''SEND'') [(str ''destination'', Str (str ''/queue/a''))] (str ''hi'') = Inr w"
      "command (unmarshallSingle w) = str ''SEND''"
      "body (unmarshallSingle w) = str ''hi''"
      "\<And>k. obj_get (headers (unmarshallSingle w)) k =
          (if k = content_length \<and> str ''hi'' \<noteq> [] then Some (Str (dec (length (str ''hi''))))
           else obj_get [(str ''destination'', Str (str ''/queue/a''))] k)"
    by blast
  have "obj_get (headers (unmarshallSingle w)) (str ''destination'')
        = Some (Str (str ''/queue/a''))"
    using w(4) [of "str ''destination''"] ne by (simp add: obj_get_Cons)
  moreover have "obj_get (headers (unmarshallSingle w)) content_length = Some (Str (str ''2''))"
    using w(4) [of content_length] ne d by simp
  ultimately show ?thesis using h w(1,2,3) by blast
qed

text \<open>
  What the wire format does to inputs that are not clean, each case evaluated: a line
  feed in the command, a colon in a header name, a boolean header value, a
  \<open>content-length\<close> header of the caller's, a line feed in a header value, a header
  named \<open>__proto__\<close>.
\<close>

lemmas eval_defs =
  marshall_def toString_def toString_lines_def Let_def sizeOfUTF8_def
  obj_get_def object_keys_def array_index_def is_digit_def header_line_def
  uri_unescaped_def is_line_terminator_def percent_encode_def utf8_octets_def
  percent_octet_def hex_digit_def dec_lt10 BYTES_dot_LF_def Byte_dot_LF_def str_def
  unmarshallSingle_def js_indexOf_def js_substring_def parse_headers_def
  header_entry_def js_substring_from_def trim_def is_space_def parseInt10_def
  digits_val_def assign_header_def

lemma cex_command_lf:
  "marshall (str ''A'' @ [BYTES_LF] @ str ''B'') [] []
     = Inr (str ''A'' @ [BYTES_LF] @ str ''B'' @ [BYTES_LF, BYTES_LF, BYTES_NULL])
   \<and> command (unmarshallSingle
         (str ''A'' @ [BYTES_LF] @ str ''B'' @ [BYTES_LF, BYTES_LF, BYTES_NULL])) = str ''A''"
  by (simp add: eval_defs)

lemma cex_name_colon:
  "marshall (str ''SEND'') [(str ''a:b'', Str (str ''c''))] []
     = Inr (str ''SEND'' @ [BYTES_LF] @ str ''a:b:c'' @ [BYTES_LF, BYTES_LF, BYTES_NULL])
   \<and> headers (unmarshallSingle
         (str ''SEND'' @ [BYTES_LF] @ str ''a:b:c'' @ [BYTES_LF, BYTES_LF, BYTES_NULL]))
     = [(str ''a'', Str (str ''b:c''))]"
  by (simp add: eval_defs)

lemma cex_bool_value:
  "marshall (str ''SEND'') [(str ''a'', Bool True)] []
     = Inr (str ''SEND'' @ [BYTES_LF] @ str ''a:true'' @ [BYTES_LF, BYTES_LF, BYTES_NULL])
   \<and> headers (unmarshallSingle
         (str ''SEND'' @ [BYTES_LF] @ str ''a:true'' @ [BYTES_LF, BYTES_LF, BYTES_NULL]))
     = [(str ''a'', Str (str ''true''))]"
  by (simp add: eval_defs)

lemma cex_own_content_length:
  "marshall (str ''SEND'') [(content_length, Str (str ''5''))] (str ''hi'')
     = Inr (str ''SEND'' @ [BYTES_LF] @ str ''content-length:5'' @ [BYTES_LF]
            @ str ''content-length:2'' @ [BYTES_LF, BYTES_LF] @ str ''hi'' @ [BYTES_NULL])
   \<and> body (unmarshallSingle
         (str ''SEND'' @ [BYTES_LF] @ str ''content-length:5'' @ [BYTES_LF]
            @ str ''content-length:2'' @ [BYTES_LF, BYTES_LF] @ str ''hi'' @ [BYTES_NULL]))
     = str ''hi'' @ [BYTES_NULL]"
  by (simp add: eval_defs)

lemma cex_value_lf:
  "marshall (str ''SEND'') [(str ''a'', Str (str ''x'' @ [BYTES_LF] @ str ''y:z''))] []
     = Inr (str ''SEND'' @ [BYTES_LF] @ str ''a:x'' @ [BYTES_LF] @ str ''y:z''
            @ [BYTES_LF, BYTES_LF, BYTES_NULL])
   \<and> headers (unmarshallSingle
         (str ''SEND'' @ [BYTES_LF] @ str ''a:x'' @ [BYTES_LF] @ str ''y:z''
            @ [BYTES_LF, BYTES_LF, BYTES_NULL]))
     = [(str ''y'', Str (str ''z'')), (str ''a'', Str (str ''x''))]"
  by (simp add: eval_defs)

lemma cex_proto_name:
  "marshall (str ''SEND'') [(str ''__proto__'', Str (str ''x''))] []
     = Inr (str ''SEND'' @ [BYTES_LF] @ str ''__proto__:x'' @ [BYTES_LF, BYTES_LF, BYTES_NULL])
   \<and> headers (unmarshallSingle
         (str ''SEND'' @ [BYTES_LF] @ str ''__proto__:x'' @ [BYTES_LF, BYTES_LF, BYTES_NULL]))
     = []"
  by (simp add: eval_defs)

lemma cex_trimmed_value:
  "marshall (str ''SEND'') [(str ''a'', Str (str '' 1''))] (str ''hi'')
     = Inr (str ''SEND'' @ [BYTES_LF] @ str ''a: 1'' @ [BYTES_LF] @ str ''content-length:2''
            @ [BYTES_LF, BYTES_LF] @ str ''hi'' @ [BYTES_NULL])
   \<and> obj_get (headers (unmarshallSingle
         (str ''SEND'' @ [BYTES_LF] @ str ''a: 1'' @ [BYTES_LF] @ str ''content-length:2''
            @ [BYTES_LF, BYTES_LF] @ str ''hi'' @ [BYTES_NULL]))) (str ''a'')
     = Some (Str (str ''1''))"
  by (simp add: eval_defs)

lemma cex_multibyte_body:
  "marshall (str ''SEND'') [] [0x20AC]
     = Inr (str ''SEND'' @ [BYTES_LF] @ str ''content-length:3''
            @ [BYTES_LF, BYTES_LF, 0x20AC, BYTES_NULL])
   \<and> body (unmarshallSingle
         (str ''SEND'' @ [BYTES_LF] @ str ''content-length:3''
            @ [BYTES_LF, BYTES_LF, 0x20AC, BYTES_NULL]))
     = [0x20AC, BYTES_NULL]"
  by (simp add: eval_defs)

text \<open>
  C1 as stated fails. A header value with a leading space comes back trimmed: the header
  \<open>a\<close> with the value \<open>" 1"\<close> is parsed as \<open>"1"\<close>. A body outside ASCII comes back longer:
  the count in \<open>content-length\<close> is in bytes, \<open>substring\<close> counts code units, so the body
  U+20AC, announced with three bytes, is read back with the NULL that follows it. The
  other conjuncts are the cases above, in their order; in the last the headers have the
  own property \<open>__proto__\<close> with the value \<open>x\<close>, as \<open>JSON.parse\<close> makes one, the line
  \<open>__proto__:x\<close> is on the wire and the parsed frame has no header.
\<close>

theorem round_trip_counterexample:
  "(marshall (str ''SEND'') [(str ''a'', Str (str '' 1''))] (str ''hi'')
     = Inr (str ''SEND'' @ [BYTES_LF] @ str ''a: 1'' @ [BYTES_LF] @ str ''content-length:2''
            @ [BYTES_LF, BYTES_LF] @ str ''hi'' @ [BYTES_NULL])
    \<and> obj_get (headers (unmarshallSingle
         (str ''SEND'' @ [BYTES_LF] @ str ''a: 1'' @ [BYTES_LF] @ str ''content-length:2''
            @ [BYTES_LF, BYTES_LF] @ str ''hi'' @ [BYTES_NULL]))) (str ''a'')
     = Some (Str (str ''1'')))
   \<and> (marshall (str ''SEND'') [] [0x20AC]
     = Inr (str ''SEND'' @ [BYTES_LF] @ str ''content-length:3''
            @ [BYTES_LF, BYTES_LF, 0x20AC, BYTES_NULL])
    \<and> body (unmarshallSingle
         (str ''SEND'' @ [BYTES_LF] @ str ''content-length:3''
            @ [BYTES_LF, BYTES_LF, 0x20AC, BYTES_NULL]))
     = [0x20AC, BYTES_NULL])
   \<and> (marshall (str ''A'' @ [BYTES_LF] @ str ''B'') [] []
     = Inr (str ''A'' @ [BYTES_LF] @ str ''B'' @ [BYTES_LF, BYTES_LF, BYTES_NULL])
    \<and> command (unmarshallSingle
         (str ''A'' @ [BYTES_LF] @ str ''B'' @ [BYTES_LF, BYTES_LF, BYTES_NULL])) = str ''A'')
   \<and> (marshall (str ''SEND'') [(str ''a:b'', Str (str ''c''))] []
     = Inr (str ''SEND'' @ [BYTES_LF] @ str ''a:b:c'' @ [BYTES_LF, BYTES_LF, BYTES_NULL])
    \<and> headers (unmarshallSingle
         (str ''SEND'' @ [BYTES_LF] @ str ''a:b:c'' @ [BYTES_LF, BYTES_LF, BYTES_NULL]))
     = [(str ''a'', Str (str ''b:c''))])
   \<and> (marshall (str ''SEND'') [(str ''a'', Bool True)] []
     = Inr (str ''SEND'' @ [BYTES_LF] @ str ''a:true'' @ [BYTES_LF, BYTES_LF, BYTES_NULL])
    \<and> headers (unmarshallSingle
         (str ''SEND'' @ [BYTES_LF] @ str ''a:true'' @ [BYTES_LF, BYTES_LF, BYTES_NULL]))
     = [(str ''a'', Str (str ''true''))])
   \<and> (marshall (str ''SEND'') [(content_length, Str (str ''5''))] (str ''hi'')
     = Inr (str ''SEND'' @ [BYTES_LF] @ str ''content-length:5'' @ [BYTES_LF]
            @ str ''content-length:2'' @ [BYTES_LF, BYTES_LF] @ str ''hi'' @ [BYTES_NULL])
    \<and> body (unmarshallSingle
         (str ''SEND'' @ [BYTES_LF] @ str ''content-length:5'' @ [BYTES_LF]
            @ str ''content-length:2'' @ [BYTES_LF, BYTES_LF] @ str ''hi'' @ [BYTES_NULL]))
     = str ''hi'' @ [BYTES_NULL])
   \<and> (marshall (str ''SEND'') [(str ''a'', Str (str ''x'' @ [BYTES_LF] @ str ''y:z''))] []
     = Inr (str ''SEND'' @ [BYTES_LF] @ str ''a:x'' @ [BYTES_LF] @ str ''y:z''
            @ [BYTES_LF, BYTES_LF, BYTES_NULL])
    \<and> headers (unmarshallSingle
         (str ''SEND'' @ [BYTES_LF] @ str ''a:x'' @ [BYTES_LF] @ str ''y:z''
            @ [BYTES_LF, BYTES_LF, BYTES_NULL]))
     = [(str ''y'', Str (str ''z'')), (str ''a'', Str (str ''x''))])
   \<and> (marshall (str ''SEND'') [(str ''__proto__'', Str (str ''x''))] []
     = Inr (str ''SEND'' @ [BYTES_LF] @ str ''__proto__:x'' @ [BYTES_LF, BYTES_LF, BYTES_NULL])
    \<and> headers (unmarshallSingle
         (str ''SEND'' @ [BYTES_LF] @ str ''__proto__:x'' @ [BYTES_LF, BYTES_LF, BYTES_NULL]))
     = [])"
  by (intro conjI [OF cex_trimmed_value] conjI [OF cex_multibyte_body]
      conjI [OF cex_command_lf] conjI [OF cex_name_colon] conjI [OF cex_bool_value]
      conjI [OF cex_own_content_length] conjI [OF cex_value_lf] cex_proto_name)

section \<open>Suppression of the content-length header\<close>

lemma first_sep_eq:
  assumes "k @ x # v = c @ x # w" and "x \<notin> set k" and "x \<notin> set c"
  shows "k = c"
  using assms
  by (auto simp: append_eq_append_conv2 append_eq_Cons_conv Cons_eq_append_conv)

lemma plain_header_line:
  assumes "list_all plain_header hs" and "k \<in> set (object_keys hs)"
    and "content_length \<notin> set (object_keys hs)"
  shows "header_line hs k \<noteq> []"
    and "BYTES_LF \<notin> set (header_line hs k)"
    and "take (length (content_length @ [0x3A])) (header_line hs k) \<noteq> content_length @ [0x3A]"
    and "fst (header_entry (header_line hs k)) \<noteq> content_length"
proof -
  from assms(2) have "map_of hs k \<noteq> None"
    by (simp add: set_object_keys map_of_eq_None_iff)
  then obtain v where v: "obj_get hs k = Some v" by (auto simp: obj_get_def)
  then have "(k, v) \<in> set hs" by (simp add: obj_get_def map_of_SomeD)
  with assms(1) have "plain_header (k, v)" by (simp add: list_all_iff)
  then have p: "BYTES_LF \<notin> set k" "0x3A \<notin> set k" "trim k \<noteq> content_length"
    "BYTES_LF \<notin> set (to_str v)"
    by (simp_all add: plain_header_def)
  from assms(2,3) have kc: "k \<noteq> content_length" by auto
  have line: "header_line hs k = k @ 0x3A # to_str v"
    using v by (simp add: header_line_def)
  show "header_line hs k \<noteq> []" by (simp add: line)
  show "BYTES_LF \<notin> set (header_line hs k)" using p by (simp add: line)
  show "fst (header_entry (header_line hs k)) \<noteq> content_length"
    using header_entry_line [OF p(2), of "to_str v"] p(3) by (simp add: line)
  show "take (length (content_length @ [0x3A])) (header_line hs k) \<noteq> content_length @ [0x3A]"
  proof
    let ?n = "length (content_length @ [0x3A])"
    assume t: "take ?n (header_line hs k) = content_length @ [0x3A]"
    have "k @ 0x3A # to_str v = take ?n (k @ 0x3A # to_str v) @ drop ?n (k @ 0x3A # to_str v)"
      by (simp only: append_take_drop_id)
    also have "\<dots> = content_length @ 0x3A # drop ?n (k @ 0x3A # to_str v)"
      using t by (simp only: line) simp
    finally have "k = content_length"
      using p(2) content_length_no_colon by (rule first_sep_eq)
    with kc show False by simp
  qed
qed

text \<open>
  C5, amended. When the headers hold \<open>content-length\<close> with the value \<open>false\<close>, the body is
  not empty, the command holds no line feed and every other header is plain (no line feed
  in its name or in the string of its value, no colon in its name, and a name that is not
  \<open>content-length\<close> once trimmed), \<open>toString\<close> succeeds and returns the command and one line
  for each key left after the deletion of the sentinel, joined by line feeds, then two
  line feeds and the body; \<open>marshall\<close> returns that and the NULL. The text before the two
  line feeds splits into exactly those lines. No header line begins with
  \<open>content-length:\<close>, so neither the line of the sentinel nor a line of a computed count
  is among them, and \<open>unmarshallSingle\<close> of the output finds no \<open>content-length\<close> header.
\<close>

theorem content_length_suppressed:
  assumes "obj_get (headers f) content_length = Some (Bool False)" and "body f \<noteq> []"
    and "BYTES_LF \<notin> set (command f)"
    and "list_all plain_header (obj_delete (headers f) content_length)"
  shows "\<exists>hl out.
           hl = map (header_line (obj_delete (headers f) content_length))
                    (object_keys (obj_delete (headers f) content_length))
         \<and> out = js_join BYTES_LF (command f # hl) @ BYTES_LF # BYTES_LF # body f
         \<and> fst (toString f) = Inr out
         \<and> marshall (command f) (headers f) (body f) = Inr (out @ [BYTES_NULL])
         \<and> js_split BYTES_LF (js_join BYTES_LF (command f # hl)) = command f # hl
         \<and> list_all (\<lambda>l. take (length (content_length @ [0x3A])) l \<noteq> content_length @ [0x3A]) hl
         \<and> content_length @ [0x3A] @ str ''false'' \<notin> set hl
         \<and> (\<forall>n. content_length @ [0x3A] @ dec n \<notin> set hl)
         \<and> obj_get (headers (unmarshallSingle out)) content_length = None
         \<and> obj_get (headers (unmarshallSingle (out @ [BYTES_NULL]))) content_length = None"
proof -
  let ?hs = "obj_delete (headers f) content_length"
  define hl where "hl = map (header_line ?hs) (object_keys ?hs)"
  define J where "J = js_join BYTES_LF (command f # hl)"
  define out where "out = J @ BYTES_LF # BYTES_LF # body f"
  have nokey: "content_length \<notin> set (object_keys ?hs)"
    by (rule object_keys_delete)
  note pl = plain_header_line [OF assms(4) _ nokey]
  have lines: "list_all (\<lambda>l. l \<noteq> [] \<and> BYTES_LF \<notin> set l) hl"
    using pl(1,2) by (simp add: hl_def list_all_iff)
  have nopre: "list_all (\<lambda>l. take (length (content_length @ [0x3A])) l \<noteq> content_length @ [0x3A]) hl"
    using pl(3) by (simp add: hl_def list_all_iff)
  have noname: "list_all (\<lambda>l. fst (header_entry l) \<noteq> content_length) hl"
    using pl(4) by (simp add: hl_def list_all_iff)
  have tl: "fst (toString_lines f) = Inr ((command f # hl) @ [BYTES_LF # body f])"
    using assms(1,2) by (simp add: toString_lines_def Let_def hl_def BYTES_dot_LF_def)
  have j: "js_join BYTES_LF ((command f # hl) @ [BYTES_LF # body f]) = out"
    unfolding out_def J_def
    using js_join_append [of "command f # hl" "[BYTES_LF # body f]" BYTES_LF] by simp
  have ts: "fst (toString f) = Inr out"
    using tl j by (cases "toString_lines f") (simp add: toString_def BYTES_dot_LF_def)
  have eq: "\<lparr>command = command f, headers = headers f, body = body f\<rparr> = f" by simp
  have m: "marshall (command f) (headers f) (body f) = Inr (out @ [BYTES_NULL])"
    unfolding marshall_def eq using ts by simp
  have "list_all (\<lambda>l. BYTES_LF \<notin> set l) (command f # hl)"
    using assms(3) lines by (simp add: list_all_iff)
  then have spl: "js_split BYTES_LF J = command f # hl"
    unfolding J_def by (rule js_split_join)
  have nopre_w: "content_length @ [0x3A] @ w \<notin> set hl" for w
  proof
    assume "content_length @ [0x3A] @ w \<in> set hl"
    with nopre have "take (length (content_length @ [0x3A])) (content_length @ [0x3A] @ w)
        \<noteq> content_length @ [0x3A]"
      by (simp only: list_all_iff) blast
    then show False by simp
  qed
  have "map_of (map (\<lambda>l. (fst (header_entry l), Str (snd (header_entry l)))) hl)
          content_length = None"
    using noname by (auto simp: map_of_eq_None_iff list_all_iff)
  then have parsed: "obj_get (parse_headers hl) content_length = None"
    by (simp add: obj_get_parse_headers)
  have h1: "headers (unmarshallSingle out) = parse_headers hl"
    unfolding out_def J_def by (rule unmarshallSingle_wire_head(2) [OF assms(3) lines])
  have "out @ [BYTES_NULL] = J @ BYTES_LF # BYTES_LF # (body f @ [BYTES_NULL])"
    by (simp add: out_def)
  then have h2: "headers (unmarshallSingle (out @ [BYTES_NULL])) = parse_headers hl"
    unfolding J_def by (simp only: unmarshallSingle_wire_head(2) [OF assms(3) lines])
  have "hl = map (header_line ?hs) (object_keys ?hs)
      \<and> out = js_join BYTES_LF (command f # hl) @ BYTES_LF # BYTES_LF # body f
      \<and> fst (toString f) = Inr out
      \<and> marshall (command f) (headers f) (body f) = Inr (out @ [BYTES_NULL])
      \<and> js_split BYTES_LF (js_join BYTES_LF (command f # hl)) = command f # hl
      \<and> list_all (\<lambda>l. take (length (content_length @ [0x3A])) l \<noteq> content_length @ [0x3A]) hl
      \<and> content_length @ [0x3A] @ str ''false'' \<notin> set hl
      \<and> (\<forall>n. content_length @ [0x3A] @ dec n \<notin> set hl)
      \<and> obj_get (headers (unmarshallSingle out)) content_length = None
      \<and> obj_get (headers (unmarshallSingle (out @ [BYTES_NULL]))) content_length = None"
    using hl_def out_def [unfolded J_def] ts m spl [unfolded J_def] nopre nopre_w parsed h1 h2
    by (simp only: simp_thms)
  then show ?thesis by blast
qed

text \<open>
  The frame \<open>SEND\<close> with the sentinel, the header \<open>b\<close> with the value \<open>x\<close> and the body
  \<open>hi\<close>: the output is the command, the line \<open>b:x\<close>, the empty line and the body.
\<close>

theorem content_length_suppressed_witness:
  "obj_get [(content_length, Bool False), (str ''b'', Str (str ''x''))] content_length
     = Some (Bool False)
   \<and> str ''hi'' \<noteq> []
   \<and> BYTES_LF \<notin> set (str ''SEND'')
   \<and> list_all plain_header
       (obj_delete [(content_length, Bool False), (str ''b'', Str (str ''x''))] content_length)
   \<and> fst (toString \<lparr>command = str ''SEND'',
         headers = [(content_length, Bool False), (str ''b'', Str (str ''x''))],
         body = str ''hi''\<rparr>)
       = Inr (str ''SEND'' @ [BYTES_LF] @ str ''b:x'' @ [BYTES_LF, BYTES_LF] @ str ''hi'')
   \<and> marshall (str ''SEND'') [(content_length, Bool False), (str ''b'', Str (str ''x''))]
        (str ''hi'')
       = Inr (str ''SEND'' @ [BYTES_LF] @ str ''b:x'' @ [BYTES_LF, BYTES_LF] @ str ''hi''
              @ [BYTES_NULL])
   \<and> obj_get (headers (unmarshallSingle
        (str ''SEND'' @ [BYTES_LF] @ str ''b:x'' @ [BYTES_LF, BYTES_LF] @ str ''hi''
         @ [BYTES_NULL]))) content_length = None"
proof -
  let ?hs = "[(content_length, Bool False), (str ''b'', Str (str ''x''))]"
  let ?f = "\<lparr>command = str ''SEND'', headers = ?hs, body = str ''hi''\<rparr>"
  have h: "obj_get (headers ?f) content_length = Some (Bool False)"
    "body ?f \<noteq> []" "BYTES_LF \<notin> set (command ?f)"
    "list_all plain_header (obj_delete (headers ?f) content_length)"
    by (simp_all add: obj_get_def obj_delete_def plain_header_def trim_def is_space_def str_def)
  have hl: "map (header_line (obj_delete (headers ?f) content_length))
                (object_keys (obj_delete (headers ?f) content_length)) = [str ''b:x'']"
    by (simp add: obj_get_def obj_delete_def object_keys_def array_index_def header_line_def
        str_def is_digit_def)
  from content_length_suppressed [OF h] obtain out where
    o: "out = js_join BYTES_LF (command ?f # [str ''b:x'']) @ BYTES_LF # BYTES_LF # body ?f"
      "fst (toString ?f) = Inr out"
      "marshall (command ?f) (headers ?f) (body ?f) = Inr (out @ [BYTES_NULL])"
      "obj_get (headers (unmarshallSingle (out @ [BYTES_NULL]))) content_length = None"
    unfolding hl by blast
  have out: "out = str ''SEND'' @ [BYTES_LF] @ str ''b:x'' @ [BYTES_LF, BYTES_LF] @ str ''hi''"
    using o(1) by simp
  show ?thesis
    using h o(2,3,4) unfolding out by simp
qed

lemma cex_suppressed_value_lf:
  "marshall (str ''SEND'')
      [(content_length, Bool False),
       (str ''a'', Str (str ''x'' @ [BYTES_LF] @ str ''content-length:5''))] (str ''hi'')
     = Inr (str ''SEND'' @ [BYTES_LF] @ str ''a:x'' @ [BYTES_LF] @ str ''content-length:5''
            @ [BYTES_LF, BYTES_LF] @ str ''hi'' @ [BYTES_NULL])
   \<and> js_split BYTES_LF (str ''SEND'' @ [BYTES_LF] @ str ''a:x'' @ [BYTES_LF]
                          @ str ''content-length:5'')
     = [str ''SEND'', str ''a:x'', str ''content-length:5'']
   \<and> obj_get (headers (unmarshallSingle
         (str ''SEND'' @ [BYTES_LF] @ str ''a:x'' @ [BYTES_LF] @ str ''content-length:5''
          @ [BYTES_LF, BYTES_LF] @ str ''hi'' @ [BYTES_NULL]))) content_length
     = Some (Str (str ''5''))"
  by (simp add: eval_defs obj_delete_def)

lemma cex_suppressed_name_colon:
  "marshall (str ''SEND'')
      [(content_length, Bool False), (str ''content-length:5'', Str [])] (str ''hi'')
     = Inr (str ''SEND'' @ [BYTES_LF] @ str ''content-length:5:''
            @ [BYTES_LF, BYTES_LF] @ str ''hi'' @ [BYTES_NULL])
   \<and> obj_get (headers (unmarshallSingle
         (str ''SEND'' @ [BYTES_LF] @ str ''content-length:5:''
          @ [BYTES_LF, BYTES_LF] @ str ''hi'' @ [BYTES_NULL]))) content_length
     = Some (Str (str ''5:''))"
  by (simp add: eval_defs obj_delete_def)

lemma cex_suppressed_name_space:
  "marshall (str ''SEND'')
      [(content_length, Bool False), (str '' content-length'', Str (str ''5''))] (str ''hi'')
     = Inr (str ''SEND'' @ [BYTES_LF] @ str '' content-length:5''
            @ [BYTES_LF, BYTES_LF] @ str ''hi'' @ [BYTES_NULL])
   \<and> obj_get (headers (unmarshallSingle
         (str ''SEND'' @ [BYTES_LF] @ str '' content-length:5''
          @ [BYTES_LF, BYTES_LF] @ str ''hi'' @ [BYTES_NULL]))) content_length
     = Some (Str (str ''5''))"
  by (simp add: eval_defs obj_delete_def)

lemma cex_suppressed_command_lf:
  "marshall (str ''SEND'' @ [BYTES_LF] @ str ''content-length:5'')
      [(content_length, Bool False)] (str ''hi'')
     = Inr (str ''SEND'' @ [BYTES_LF] @ str ''content-length:5''
            @ [BYTES_LF, BYTES_LF] @ str ''hi'' @ [BYTES_NULL])
   \<and> obj_get (headers (unmarshallSingle
         (str ''SEND'' @ [BYTES_LF] @ str ''content-length:5''
          @ [BYTES_LF, BYTES_LF] @ str ''hi'' @ [BYTES_NULL]))) content_length
     = Some (Str (str ''5''))"
  by (simp add: eval_defs obj_delete_def)

text \<open>
  C5 as stated fails. With the sentinel, the header \<open>a\<close> whose value is \<open>x\<close>, a line feed
  and \<open>content-length:5\<close>, and the body \<open>hi\<close>, the serialized frame has the three lines
  \<open>SEND\<close>, \<open>a:x\<close> and \<open>content-length:5\<close> before the empty line: the output contains a
  \<open>content-length\<close> header line, and \<open>unmarshallSingle\<close> reads the header \<open>content-length\<close>
  with the value \<open>5\<close> from it. The other conjuncts give the same for a header name that
  holds a colon, a header name that begins with a space, and a command that holds a line
  feed.
\<close>

theorem content_length_suppressed_line_feed:
  "(marshall (str ''SEND'')
      [(content_length, Bool False),
       (str ''a'', Str (str ''x'' @ [BYTES_LF] @ str ''content-length:5''))] (str ''hi'')
     = Inr (str ''SEND'' @ [BYTES_LF] @ str ''a:x'' @ [BYTES_LF] @ str ''content-length:5''
            @ [BYTES_LF, BYTES_LF] @ str ''hi'' @ [BYTES_NULL])
    \<and> js_split BYTES_LF (str ''SEND'' @ [BYTES_LF] @ str ''a:x'' @ [BYTES_LF]
                          @ str ''content-length:5'')
     = [str ''SEND'', str ''a:x'', str ''content-length:5'']
    \<and> obj_get (headers (unmarshallSingle
         (str ''SEND'' @ [BYTES_LF] @ str ''a:x'' @ [BYTES_LF] @ str ''content-length:5''
          @ [BYTES_LF, BYTES_LF] @ str ''hi'' @ [BYTES_NULL]))) content_length
     = Some (Str (str ''5'')))
   \<and> (marshall (str ''SEND'')
      [(content_length, Bool False), (str ''content-length:5'', Str [])] (str ''hi'')
     = Inr (str ''SEND'' @ [BYTES_LF] @ str ''content-length:5:''
            @ [BYTES_LF, BYTES_LF] @ str ''hi'' @ [BYTES_NULL])
    \<and> obj_get (headers (unmarshallSingle
         (str ''SEND'' @ [BYTES_LF] @ str ''content-length:5:''
          @ [BYTES_LF, BYTES_LF] @ str ''hi'' @ [BYTES_NULL]))) content_length
     = Some (Str (str ''5:'')))
   \<and> (marshall (str ''SEND'')
      [(content_length, Bool False), (str '' content-length'', Str (str ''5''))] (str ''hi'')
     = Inr (str ''SEND'' @ [BYTES_LF] @ str '' content-length:5''
            @ [BYTES_LF, BYTES_LF] @ str ''hi'' @ [BYTES_NULL])
    \<and> obj_get (headers (unmarshallSingle
         (str ''SEND'' @ [BYTES_LF] @ str '' content-length:5''
          @ [BYTES_LF, BYTES_LF] @ str ''hi'' @ [BYTES_NULL]))) content_length
     = Some (Str (str ''5'')))
   \<and> (marshall (str ''SEND'' @ [BYTES_LF] @ str ''content-length:5'')
      [(content_length, Bool False)] (str ''hi'')
     = Inr (str ''SEND'' @ [BYTES_LF] @ str ''content-length:5''
            @ [BYTES_LF, BYTES_LF] @ str ''hi'' @ [BYTES_NULL])
    \<and> obj_get (headers (unmarshallSingle
         (str ''SEND'' @ [BYTES_LF] @ str ''content-length:5''
          @ [BYTES_LF, BYTES_LF] @ str ''hi'' @ [BYTES_NULL]))) content_length
     = Some (Str (str ''5'')))"
  by (intro conjI [OF cex_suppressed_value_lf] conjI [OF cex_suppressed_name_colon]
      conjI [OF cex_suppressed_name_space] cex_suppressed_command_lf)

section \<open>Parsing a buffer that has no divider\<close>

text \<open>
  C9. \<open>unmarshallSingle\<close> uses only operations that are defined on every string (a search
  that finds nothing returns \<open>-1\<close>, \<open>substring\<close> clamps its arguments, \<open>split\<close> returns at
  least one piece), so it is a total function with no error result. On a buffer without
  two consecutive line feeds the result is fixed: \<open>substring(0, -1)\<close> is empty, so the
  command is the empty string and there is no header, and the body is read from offset
  \<open>-1 + 2 = 1\<close> up to the first NULL or the end of the buffer.
\<close>

theorem unmarshallSingle_no_divider:
  assumes "js_indexOf data [BYTES_LF, BYTES_LF] = - 1"
  shows "unmarshallSingle data =
           \<lparr>command = [], headers = [],
            body = takeWhile (\<lambda>chr. chr \<noteq> BYTES_NULL) (drop 1 data)\<rparr>"
  using assms
  by (simp add: unmarshallSingle_def Let_def js_substring_minus_one parse_headers_def obj_get_def)

theorem unmarshallSingle_no_divider_witness:
  "js_indexOf (str ''garbage'' @ [BYTES_NULL] @ str ''x'') [BYTES_LF, BYTES_LF] = - 1
   \<and> unmarshallSingle (str ''garbage'' @ [BYTES_NULL] @ str ''x'') =
       \<lparr>command = [], headers = [], body = str ''arbage''\<rparr>"
  using unmarshallSingle_no_divider [of "str ''garbage'' @ [BYTES_NULL] @ str ''x''"]
  by (simp add: js_indexOf_def str_def)
section \<open>Frames split over transport messages\<close>

lemma split_frames_nonempty: "split_frames s \<noteq> []"
  by (induction s rule: split_frames.induct) simp_all

lemma split_frames_no_null: "BYTES_NULL \<notin> set s \<Longrightarrow> split_frames s = [s]"
  by (induction s) auto

lemma search_null_end_no_null: "BYTES_NULL \<notin> set s \<Longrightarrow> search_null_end s = None"
  by (induction s) auto

lemma butlast_cons_first: "ps \<noteq> [] \<Longrightarrow> butlast ps \<noteq> [] \<Longrightarrow> butlast (cons_first x ps) \<noteq> []"
  by (cases ps) (simp_all split: if_splits)

lemma split_frames_null: "BYTES_NULL \<in> set s \<Longrightarrow> butlast (split_frames s) \<noteq> []"
proof (induction s rule: split_frames.induct)
  case 1
  then show ?case by simp
next
  case (2 x xs)
  then show ?case
    by (auto simp: split_frames_nonempty butlast_cons_first)
qed

lemma map_throwing_bare: "fs \<noteq> [] \<Longrightarrow> map_throwing bare_unmarshallSingle fs = Inl ReferenceError"
  by (cases fs) (simp_all add: bare_unmarshallSingle_def)

lemma unmarshall_incomplete:
  assumes "BYTES_NULL \<notin> set s" and "s \<noteq> [BYTES_LF]"
  shows "unmarshall s = Inr \<lparr>frames = [], partial = s\<rparr>"
  using assms
  by (simp add: unmarshall_def Let_def split_frames_no_null search_null_end_no_null
      Byte_dot_LF_def)

lemma unmarshall_null:
  assumes "BYTES_NULL \<in> set s"
  shows "unmarshall s = Inl ReferenceError"
  using map_throwing_bare [OF split_frames_null [OF assms]]
  by (simp add: unmarshall_def Let_def)

lemma unmarshall_heartbeat: "unmarshall [BYTES_LF] = Inl ReferenceError"
  by (simp add: unmarshall_def Let_def Byte_dot_LF_def bare_unmarshallSingle_def)

lemma marshall_terminated: "marshall cmd hs b = Inr w \<Longrightarrow> w = butlast w @ [BYTES_NULL]"
  by (auto simp: marshall_def split: sum.splits)

text \<open>
  C2. The claim is that a frame cut in two comes out of \<open>unmarshall\<close> whole once the
  second chunk has followed the first. The code does not do that. Take any frame \<open>w\<close>
  that \<open>marshall\<close> returns and cut it at any offset \<open>k\<close>. \<open>unmarshall\<close> of the whole frame
  throws \<open>ReferenceError\<close> and yields no frame; so does \<open>unmarshall\<close> of the first chunk
  followed by the second, and of the frame after any pending text: a buffer that holds a
  NULL reaches the call of the unbound name \<open>unmarshallSingle\<close>. \<open>unmarshall\<close> of the
  first chunk alone returns no frame and the chunk as \<open>partial\<close> when the chunk holds no
  NULL and is not the single line feed, and throws otherwise.
\<close>

theorem fragmentation_throws:
  assumes "marshall cmd hs b = Inr w"
  shows "unmarshall w = Inl ReferenceError
         \<and> unmarshall (take k w @ drop k w) = Inl ReferenceError
         \<and> unmarshall (pending @ w) = Inl ReferenceError
         \<and> (if BYTES_NULL \<in> set (take k w) \<or> take k w = [BYTES_LF]
            then unmarshall (take k w) = Inl ReferenceError
            else unmarshall (take k w) = Inr \<lparr>frames = [], partial = take k w\<rparr>)"
proof -
  have w: "w = butlast w @ [BYTES_NULL]" using assms by (rule marshall_terminated)
  have "BYTES_NULL \<in> set (butlast w @ [BYTES_NULL])" by simp
  with w have n: "BYTES_NULL \<in> set w" by simp
  then have whole: "unmarshall w = Inl ReferenceError" by (rule unmarshall_null)
  have "BYTES_NULL \<in> set (pending @ w)" using n by simp
  then have pend: "unmarshall (pending @ w) = Inl ReferenceError" by (rule unmarshall_null)
  show ?thesis
    using whole pend unmarshall_null [of "take k w"] unmarshall_heartbeat
      unmarshall_incomplete [of "take k w"]
    by auto
qed

text \<open>The frame \<open>SEND\<close> with the body \<open>hi\<close>, whole and cut after ten code units.\<close>

theorem fragmentation_throws_witness:
  "marshall (str ''SEND'') [] (str ''hi'')
     = Inr (str ''SEND'' @ [BYTES_LF] @ str ''content-length:2'' @ [BYTES_LF, BYTES_LF]
            @ str ''hi'' @ [BYTES_NULL])
   \<and> unmarshall (str ''SEND'' @ [BYTES_LF] @ str ''content-length:2'' @ [BYTES_LF, BYTES_LF]
                 @ str ''hi'' @ [BYTES_NULL])
       = Inl ReferenceError
   \<and> unmarshall (str ''SEND'' @ [BYTES_LF] @ str ''conte'')
       = Inr \<lparr>frames = [], partial = str ''SEND'' @ [BYTES_LF] @ str ''conte''\<rparr>
   \<and> unmarshall ((str ''SEND'' @ [BYTES_LF] @ str ''conte'')
                  @ (str ''nt-length:2'' @ [BYTES_LF, BYTES_LF] @ str ''hi'' @ [BYTES_NULL]))
       = Inl ReferenceError"
proof -
  let ?w = "str ''SEND'' @ [BYTES_LF] @ str ''content-length:2'' @ [BYTES_LF, BYTES_LF]
            @ str ''hi'' @ [BYTES_NULL]"
  have m: "marshall (str ''SEND'') [] (str ''hi'') = Inr ?w"
    by (simp add: marshall_def toString_def toString_lines_def Let_def sizeOfUTF8_def
        obj_get_def object_keys_def uri_unescaped_def is_line_terminator_def dec_lt10
        BYTES_dot_LF_def str_def)
  have t: "take 10 ?w = str ''SEND'' @ [BYTES_LF] @ str ''conte''"
    "drop 10 ?w = str ''nt-length:2'' @ [BYTES_LF, BYTES_LF] @ str ''hi'' @ [BYTES_NULL]"
    by (simp_all add: str_def)
  have c: "\<not> (BYTES_NULL \<in> set (str ''SEND'' @ [BYTES_LF] @ str ''conte'')
              \<or> str ''SEND'' @ [BYTES_LF] @ str ''conte'' = [BYTES_LF])"
    by (simp add: str_def)
  note fr = fragmentation_throws [OF m, of 10 "[]", unfolded t if_not_P [OF c]]
  from fr m show ?thesis by simp
qed

section \<open>The client\<close>











text \<open>
  C6. The claim fails on the code: the first statement of \<open>_setupHeartbeat\<close> returns
  unless the \<open>version\<close> header equals both version strings, so with two different version
  strings the function returns the state as it found it, whatever the headers, and no
  timer is started. The witness is the input of the claim: desired heartbeat 4000 and
  4000, the header \<open>heart-beat:3000,0\<close>, version 1.1; the dispatch of the \<open>CONNECTED\<close>
  frame marks the client connected and leaves both timers unset.
\<close>

theorem heartbeat_never_set_up:
  assumes "V1_1 vs \<noteq> V1_2 vs"
  shows "setupHeartbeat vs hs s = Inr s"
  using assms by (auto simp: setupHeartbeat_def)

theorem heartbeat_never_set_up_witness:
  "V1_1 \<lparr>V1_1 = str ''1.1'', V1_2 = str ''1.2''\<rparr> \<noteq> V1_2 \<lparr>V1_1 = str ''1.1'', V1_2 = str ''1.2''\<rparr>
   \<and> setupHeartbeat \<lparr>V1_1 = str ''1.1'', V1_2 = str ''1.2''\<rparr>
        [(str ''version'', Str (str ''1.1'')), (str ''heart-beat'', Str (str ''3000,0''))]
        ((new_client :: nat client)\<lparr>heartbeat_outgoing := 4000, heartbeat_incoming := 4000\<rparr>)
       = Inr ((new_client :: nat client)\<lparr>heartbeat_outgoing := 4000, heartbeat_incoming := 4000\<rparr>)
   \<and> pinger ((new_client :: nat client)\<lparr>heartbeat_outgoing := 4000, heartbeat_incoming := 4000\<rparr>)
       = None
   \<and> ponger ((new_client :: nat client)\<lparr>heartbeat_outgoing := 4000, heartbeat_incoming := 4000\<rparr>)
       = None
   \<and> map_sum id (\<lambda>s. (connected s, pinger s, ponger s))
        (dispatch \<lparr>V1_1 = str ''1.1'', V1_2 = str ''1.2''\<rparr>
           \<lparr>fn_get = \<lambda>f k. Found_falsy, fn_assign_throws = \<lambda>f k. False\<rparr>
           \<lparr>command = str ''CONNECTED'',
            headers = [(str ''version'', Str (str ''1.1'')),
                       (str ''heart-beat'', Str (str ''3000,0''))],
            body = []\<rparr>
           ((new_client :: nat client)\<lparr>heartbeat_outgoing := 4000,
                                            heartbeat_incoming := 4000\<rparr>))
       = Inr (True, None, None)"
  using heartbeat_never_set_up [of "\<lparr>V1_1 = str ''1.1'', V1_2 = str ''1.2''\<rparr>"
      "[(str ''version'', Str (str ''1.1'')), (str ''heart-beat'', Str (str ''3000,0''))]"
      "(debug (Dbg_connected None)
          ((new_client :: nat client)\<lparr>heartbeat_outgoing := 4000,
                                           heartbeat_incoming := 4000\<rparr>))
         \<lparr>connected := True\<rparr>"]
    heartbeat_never_set_up [of "\<lparr>V1_1 = str ''1.1'', V1_2 = str ''1.2''\<rparr>"
      "[(str ''version'', Str (str ''1.1'')), (str ''heart-beat'', Str (str ''3000,0''))]"
      "(new_client :: nat client)\<lparr>heartbeat_outgoing := 4000, heartbeat_incoming := 4000\<rparr>"]
  by (simp add: dispatch_def obj_get_def str_def new_client_def debug_def)





section \<open>Subscriptions\<close>









text \<open>
  A name that the table inherits from \<open>Object.prototype\<close> is found as well: after
  \<open>subscribe\<close> under the id \<open>toString\<close>, given in the headers, and \<open>unsubscribe\<close> of it, a
  \<open>MESSAGE\<close> frame for the subscription \<open>toString\<close> is given to the inherited method;
  for the subscription \<open>valueOf\<close> the inherited method is called and throws.
\<close>

lemma dispatch_inherited_method:
  "table_get fo ((new_client :: nat client)\<lparr>subscriptions := [str ''toString'' \<mapsto> 7]\<rparr>)
     (str ''toString'') = Found_function (Callback 7)
   \<and> table_get fo ((new_client :: nat client)
        \<lparr>subscriptions := [str ''toString'' \<mapsto> 7](str ''toString'' := None)\<rparr>)
       (str ''toString'') = Found_function (Inherited (str ''toString''))
   \<and> dispatch vs fo
       \<lparr>command = str ''MESSAGE'', headers = [(str ''subscription'', Str (str ''toString''))],
        body = []\<rparr>
       ((new_client :: nat client)
          \<lparr>subscriptions := [str ''toString'' \<mapsto> 7](str ''toString'' := None)\<rparr>)
     = Inr ((new_client :: nat client)
          \<lparr>subscriptions := [str ''toString'' \<mapsto> 7](str ''toString'' := None),
           calls := [(Inherited (str ''toString''),
                      \<lparr>command = str ''MESSAGE'',
                       headers = [(str ''subscription'', Str (str ''toString''))],
                       body = []\<rparr>)]\<rparr>)
   \<and> dispatch vs fo
       \<lparr>command = str ''MESSAGE'', headers = [(str ''subscription'', Str (str ''valueOf''))],
        body = []\<rparr>
       (new_client :: nat client)
     = Inl TypeError"
  by (simp add: dispatch_def dispatch_message_def table_get_def call_def Let_def
      obj_get_def new_client_def object_prototype_methods_def str_def)


end
